theory Spec2Isabelle
  imports Main
begin

section \<open>Data model\<close>

text \<open>
  The fields of a Kubernetes \<^verbatim>\<open>v1.Event\<close> that the alertmanager sink reads. Go strings
  are byte sequences, modelled as \<^typ>\<open>string\<close>. \<open>FirstTimestamp\<close> is read by the oldest
  variant of the sink only; it is kept so that two events can agree on the five identity
  fields and still be different events.
\<close>

record event =
  Type :: string
  Namespace :: string
  Name :: string
  Message :: string
  Reason :: string
  FirstTimestamp :: int

text \<open>\<^verbatim>\<open>type AlertmanagerSink struct { Endpoint string; Level int; Cluster string }\<close>\<close>

record AlertmanagerSink =
  Endpoint :: string
  Level :: int
  Cluster :: string

text \<open>
  \<^verbatim>\<open>type Alert struct { Labels, Annotations map[string]string }\<close>. A Go map is a partial
  function; the \<^verbatim>\<open>nil\<close> map of \<open>Annotations\<close> (never assigned) is the empty map.
\<close>

record Alert =
  Labels :: "string \<rightharpoonup> string"
  Annotations :: "string \<rightharpoonup> string"

text \<open>
  The part of \<^verbatim>\<open>url.URL\<close> that the constructor reads. \<open>Query\<close> is the result of
  \<^verbatim>\<open>uri.Query()\<close>, a \<^verbatim>\<open>url.Values\<close> (\<^verbatim>\<open>map[string][]string\<close>): a key that is
  not in the Go map reads as the \<^verbatim>\<open>nil\<close> slice, of length 0, here the empty list.
\<close>

record url =
  Host :: string
  Path :: string
  Query :: "string \<Rightarrow> string list"

text \<open>Every error value of the modelled code.\<close>

datatype error =
    NotVaildAlertName            \<comment> \<open>\<^verbatim>\<open>"not valid alert name"\<close>\<close>
  | ClusterNameMissing           \<comment> \<open>\<^verbatim>\<open>"you must provide cluster name"\<close>\<close>
  | SinkNotRecognized string     \<comment> \<open>\<^verbatim>\<open>"Sink not recognized: %s"\<close>\<close>
  | BackendError string          \<comment> \<open>an error of one of the other backends' constructors\<close>

section \<open>Constants\<close>

definition WARNING :: int where "WARNING = 2"
definition NORMAL :: int where "NORMAL = 1"

definition AlertNameLabel :: string where "AlertNameLabel = ''alertname''"
definition AlertClusterLabel :: string where "AlertClusterLabel = ''cluster''"
definition AlertGroupLabel :: string where "AlertGroupLabel = ''group''"
definition AlertLevelLabel :: string where "AlertLevelLabel = ''level''"
definition AlertInstanceLabel :: string where "AlertInstanceLabel = ''instance''"
definition AlertReasonLabel :: string where "AlertReasonLabel = ''reason''"

text \<open>\<^verbatim>\<open>v1.EventTypeWarning\<close> and \<^verbatim>\<open>v1.EventTypeNormal\<close> of the Kubernetes API.\<close>

definition EventTypeWarning :: string where "EventTypeWarning = ''Warning''"
definition EventTypeNormal :: string where "EventTypeNormal = ''Normal''"

section \<open>Severity\<close>

text \<open>
  \<^verbatim>\<open>func getLevel(level string) int\<close>: a switch on the two event type strings, the
  score staying 0 in the default branch.
\<close>

definition getLevel :: "string \<Rightarrow> int" where
  "getLevel level =
     (if level = EventTypeWarning then 0 + 2
      else if level = EventTypeNormal then 0 + 1
      else 0)"

definition isEventLevelDangerous :: "AlertmanagerSink \<Rightarrow> string \<Rightarrow> bool" where
  "isEventLevelDangerous a level =
     (let score = getLevel level in if score \<ge> Level a then True else False)"

section \<open>Sink construction\<close>

text \<open>
  \<^verbatim>\<open>func NewAlertmanagerSink(uri *url.URL) (*AlertmanagerSink, error)\<close>. The zero value
  of \<open>Endpoint\<close> and \<open>Cluster\<close> is the empty string.
\<close>

definition NewAlertmanagerSink :: "url \<Rightarrow> error + AlertmanagerSink" where
  "NewAlertmanagerSink uri =
     (let d = \<lparr>Endpoint = '''', Level = WARNING, Cluster = ''''\<rparr>;
          d = (if length (Host uri) > 0 then d\<lparr>Endpoint := Host uri @ Path uri\<rparr> else d);
          opts = Query uri
      in case opts ''cluster'' of
           [] \<Rightarrow> Inl ClusterNameMissing
         | c # _ \<Rightarrow>
             (let d = d\<lparr>Cluster := c\<rparr>
              in case opts ''level'' of
                   [] \<Rightarrow> Inr d
                 | l # _ \<Rightarrow> Inr (d\<lparr>Level := getLevel l\<rparr>)))"

section \<open>Alert construction\<close>

text \<open>
  \<^verbatim>\<open>strings.ToUpper\<close> on a byte string: the ASCII letters \<open>a\<close> to \<open>z\<close> (97 to 122) move
  to \<open>A\<close> to \<open>Z\<close>, every other byte stays. This is what Go computes on ASCII input, and
  a Kubernetes namespace is an ASCII DNS label.
\<close>

definition toUpper_byte :: "char \<Rightarrow> char" where
  "toUpper_byte c =
     (let n = (of_char c :: nat) in if 97 \<le> n \<and> n \<le> 122 then char_of (n - 32) else c)"

definition ToUpper :: "string \<Rightarrow> string" where
  "ToUpper s = map toUpper_byte s"

text \<open>
  \<^verbatim>\<open>func createAlertFromEvent(cluster string, event *v1.Event) (*Alert, error)\<close> of
  \<^verbatim>\<open>alertmanager.go\<close> and of the deduplicating variant (the two bodies are the same).
  The labels are assigned in the source's order.
\<close>

definition createAlertFromEvent :: "string \<Rightarrow> event \<Rightarrow> error + Alert" where
  "createAlertFromEvent cluster ev =
     (if Message ev \<noteq> '''' then
        (let labels = Map.empty(AlertNameLabel \<mapsto> Message ev);
             labels = (if Namespace ev \<noteq> ''''
                       then labels(AlertGroupLabel \<mapsto> ToUpper (Namespace ev)) else labels);
             labels = (if Type ev \<noteq> '''' then labels(AlertLevelLabel \<mapsto> Type ev) else labels);
             labels = (if Name ev \<noteq> '''' then labels(AlertInstanceLabel \<mapsto> Name ev) else labels);
             labels = (if Reason ev \<noteq> '''' then labels(AlertReasonLabel \<mapsto> Reason ev) else labels);
             labels = labels(AlertClusterLabel \<mapsto> cluster)
         in Inr \<lparr>Labels = labels, Annotations = Map.empty\<rparr>)
      else Inl NotVaildAlertName)"

section \<open>The sink of \<^verbatim>\<open>alertmanager.go\<close>\<close>

text \<open>
  What \<^verbatim>\<open>glog\<close> is asked to print: one constructor for each logging call of the
  export loops.
\<close>

datatype logline =
    SkipIgnore event      \<comment> \<open>\<^verbatim>\<open>"skip send alert: %v, for ignore"\<close>\<close>
  | SkipNotFirst event    \<comment> \<open>\<^verbatim>\<open>"skip send alert: %v, for not first alert at 5 minute"\<close>\<close>
  | FailedCreate event    \<comment> \<open>\<^verbatim>\<open>"failed to create alert from event,because of %v"\<close>\<close>

text \<open>
  \<^verbatim>\<open>Send\<close> marshals the alerts as a JSON array and posts it to
  \<^verbatim>\<open>"http://" + Endpoint\<close>. The model keeps the request: its address, its content
  type and the alerts of its body, in order. The answer of the server is only logged.
\<close>

record request =
  address :: string
  content_type :: string
  payload :: "Alert list"

definition CONTENT_TYPE_JSON :: string where
  "CONTENT_TYPE_JSON = ''application/json''"

definition Send :: "AlertmanagerSink \<Rightarrow> Alert list \<Rightarrow> request" where
  "Send a alerts =
     \<lparr>address = ''http://'' @ Endpoint a, content_type = CONTENT_TYPE_JSON, payload = alerts\<rparr>"

text \<open>
  The body of the loop of \<^verbatim>\<open>ExportEvents\<close> (\<^verbatim>\<open>alertmanager.go\<close>), on the slice of
  alerts built so far and the log.
\<close>

definition ExportEvents_body ::
  "AlertmanagerSink \<Rightarrow> Alert list \<times> logline list \<Rightarrow> event \<Rightarrow> Alert list \<times> logline list" where
  "ExportEvents_body a st event =
     (case st of (alerts, logged) \<Rightarrow>
        if isEventLevelDangerous a (Type event) then
          (case createAlertFromEvent (Cluster a) event of
             Inl err \<Rightarrow> (alerts, logged @ [FailedCreate event])
           | Inr alert \<Rightarrow> (alerts @ [alert], logged))
        else (alerts, logged))"

text \<open>
  \<^verbatim>\<open>func (a *AlertmanagerSink) ExportEvents(batch *core.EventBatch)\<close>: the loop over
  \<^verbatim>\<open>batch.Events\<close> in order, then one \<^verbatim>\<open>Send\<close> when at least one alert was built.
  The result is the request made, if any, and the log.
\<close>

definition ExportEvents ::
  "AlertmanagerSink \<Rightarrow> event list \<Rightarrow> request option \<times> logline list" where
  "ExportEvents a batch =
     (case foldl (ExportEvents_body a) ([], []) batch of (alerts, logged) \<Rightarrow>
        (if length alerts > 0 then Some (Send a alerts) else None, logged))"

section \<open>The deduplicating variant of the sink\<close>

subsection \<open>The recorder\<close>

text \<open>
  Modelled from the spec: the dedup cache. The sink keeps its fingerprints in
  \<^verbatim>\<open>inmem.NewUnlocked(MAX_RECORDER)\<close>, an imported package that is not among the source
  files. The spec's data model gives its behaviour: an entry is a key with a presence
  marker and an expiry timestamp; an entry is invisible once its expiry has passed; the
  capacity is bounded and the oldest entry is evicted first. The model is the package's
  least-recently-used list: the front is the most recent entry, a hit moves its entry to
  the front, an entry found expired is removed, and adding to a full cache drops the back.
\<close>

record entry =
  key :: string
  val :: int
  expiresAt :: int

record cache =
  size_limit :: int
  lru :: "entry list"

definition MAX_RECORDER :: int where "MAX_RECORDER = 500"

text \<open>
  Modelled from the spec: the constructor of the dedup cache, empty and with the capacity
  given; the package refuses a capacity that is not positive.
\<close>

definition NewUnlocked :: "int \<Rightarrow> cache option" where
  "NewUnlocked n = (if n \<le> 0 then None else Some \<lparr>size_limit = n, lru = []\<rparr>)"

text \<open>\<^verbatim>\<open>var recorder = inmem.NewUnlocked(MAX_RECORDER)\<close>, the package's only cache.\<close>

definition recorder_init :: cache where
  "recorder_init = \<lparr>size_limit = MAX_RECORDER, lru = []\<rparr>"

text \<open>Modelled from the spec: the removal of the entry of a key from the dedup cache.\<close>

definition removeElement :: "string \<Rightarrow> entry list \<Rightarrow> entry list" where
  "removeElement k es = filter (\<lambda>e. key e \<noteq> k) es"

text \<open>
  Modelled from the spec: the lookup of the dedup cache. In \<open>Get c k now\<close>, \<open>now\<close> is the
  reading of \<^verbatim>\<open>time.Now()\<close> that the lookup compares the expiry with; the clock is
  read only when the key is stored. An entry is live while its expiry is after \<open>now\<close>; a
  hit returns the marker and moves the entry to the front; an expired entry is removed.
\<close>

definition Get :: "cache \<Rightarrow> string \<Rightarrow> int \<Rightarrow> cache \<times> int option" where
  "Get c k now =
     (case find (\<lambda>e. key e = k) (lru c) of
        None \<Rightarrow> (c, None)
      | Some e \<Rightarrow>
          if expiresAt e > now
          then (c\<lparr>lru := e # removeElement k (lru c)\<rparr>, Some (val e))
          else (c\<lparr>lru := removeElement k (lru c)\<rparr>, None))"

text \<open>
  Modelled from the spec: the insertion into the dedup cache. A stored key gets the new
  marker and expiry and moves to the front; a new key is pushed at the front, and the
  back entry is dropped when the list has grown beyond the capacity.
\<close>

definition Add :: "cache \<Rightarrow> string \<Rightarrow> int \<Rightarrow> int \<Rightarrow> cache" where
  "Add c k v expires =
     (case find (\<lambda>e. key e = k) (lru c) of
        Some e \<Rightarrow> c\<lparr>lru := e\<lparr>val := v, expiresAt := expires\<rparr> # removeElement k (lru c)\<rparr>
      | None \<Rightarrow>
          (let l = \<lparr>key = k, val = v, expiresAt = expires\<rparr> # lru c
           in if int (length l) > size_limit c then c\<lparr>lru := butlast l\<rparr> else c\<lparr>lru := l\<rparr>))"

subsection \<open>The export loop\<close>

text \<open>Instants and durations are counted in nanoseconds, as \<^verbatim>\<open>time.Duration\<close> is.\<close>

definition Second :: int where "Second = 1000000000"

definition ignoreAlerts :: "string list" where
  "ignoreAlerts = [''Unhealthy'']"

text \<open>
  \<^verbatim>\<open>isIgnoreAlert\<close>: the loop over \<^verbatim>\<open>ignoreAlerts\<close> sets the flag at a match and
  goes on to the next entry.
\<close>

fun isIgnoreAlert_loop :: "event \<Rightarrow> string list \<Rightarrow> bool \<Rightarrow> bool" where
  "isIgnoreAlert_loop event [] ignore = ignore"
| "isIgnoreAlert_loop event (v # vs) ignore =
     (if Reason event = v then isIgnoreAlert_loop event vs True
      else isIgnoreAlert_loop event vs ignore)"

definition isIgnoreAlert :: "AlertmanagerSink \<Rightarrow> event \<Rightarrow> bool" where
  "isIgnoreAlert a event = isIgnoreAlert_loop event ignoreAlerts False"

text \<open>
  \<^verbatim>\<open>generateKey\<close>: \<^verbatim>\<open>fmt.Sprintf("%s%s%s%s%s", ...)\<close> writes the five strings one
  after the other.
\<close>

definition generateKey :: "event \<Rightarrow> string" where
  "generateKey event =
     Type event @ Namespace event @ Name event @ Message event @ Reason event"

text \<open>
  The clock is an input of the loop. An event of the batch comes with the two readings
  of \<^verbatim>\<open>time.Now()\<close> taken while it is processed: \<open>now_get\<close> inside
  \<^verbatim>\<open>recorder.Get\<close> and \<open>now_add\<close> in the argument of \<^verbatim>\<open>recorder.Add\<close>.
\<close>

record tick =
  ev :: event
  now_get :: int
  now_add :: int

text \<open>The state of the loop: the package's recorder, the alerts built so far, the log.\<close>

record run =
  recorder :: cache
  alerts :: "Alert list"
  logged :: "logline list"

definition ExportEvents_dedup_body :: "AlertmanagerSink \<Rightarrow> run \<Rightarrow> tick \<Rightarrow> run" where
  "ExportEvents_dedup_body a st t =
     (let event = ev t in
      if isEventLevelDangerous a (Type event) then
        if isIgnoreAlert a event then st\<lparr>logged := logged st @ [SkipIgnore event]\<rparr>
        else
          (case Get (recorder st) (generateKey event) (now_get t) of
             (r, Some ok) \<Rightarrow> st\<lparr>recorder := r, logged := logged st @ [SkipNotFirst event]\<rparr>
           | (r, None) \<Rightarrow>
               (let r = Add r (generateKey event) 1 (now_add t + Second * 300)
                in case createAlertFromEvent (Cluster a) event of
                     Inl err \<Rightarrow> st\<lparr>recorder := r, logged := logged st @ [FailedCreate event]\<rparr>
                   | Inr alert \<Rightarrow> st\<lparr>recorder := r, alerts := alerts st @ [alert]\<rparr>))
      else st)"

text \<open>
  \<^verbatim>\<open>ExportEvents\<close> of the deduplicating variant, from the recorder as the earlier
  exports left it: the recorder after the batch, the request made, if any, and the log.
\<close>

definition ExportEvents_dedup_loop :: "AlertmanagerSink \<Rightarrow> cache \<Rightarrow> tick list \<Rightarrow> run" where
  "ExportEvents_dedup_loop a r batch =
     foldl (ExportEvents_dedup_body a) \<lparr>recorder = r, alerts = [], logged = []\<rparr> batch"

definition ExportEvents_dedup ::
  "AlertmanagerSink \<Rightarrow> cache \<Rightarrow> tick list \<Rightarrow> cache \<times> request option \<times> logline list" where
  "ExportEvents_dedup a r batch =
     (let st = ExportEvents_dedup_loop a r batch
      in (recorder st,
          if length (alerts st) > 0 then Some (Send a (alerts st)) else None,
          logged st))"

section \<open>The sink factory\<close>

text \<open>\<^verbatim>\<open>flags.Uri\<close>: the key of a sink specification and its parsed URL.\<close>

record Uri =
  Key :: string
  Val :: url

text \<open>
  \<^verbatim>\<open>core.EventSink\<close>: the alertmanager sink, or a sink of one of the nine other
  backends, whose packages are not among the source files. Their constructors are
  parameters of the factory; \<open>'s\<close> is the type of their sinks.
\<close>

datatype 's EventSink = AlertmanagerEventSink AlertmanagerSink | OtherEventSink 's

record 's backends =
  CreateGCLSink :: "url \<Rightarrow> error + 's"
  CreateLogSink :: "error + 's"
  CreateInfluxdbSink :: "url \<Rightarrow> error + 's"
  NewElasticSearchSink :: "url \<Rightarrow> error + 's"
  NewKafkaSink :: "url \<Rightarrow> error + 's"
  CreateRiemannSink :: "url \<Rightarrow> error + 's"
  NewHoneycombSink :: "url \<Rightarrow> error + 's"
  NewDingTalkSink :: "url \<Rightarrow> error + 's"
  NewSLSSink :: "url \<Rightarrow> error + 's"

definition other_sink :: "error + 's \<Rightarrow> error + 's EventSink" where
  "other_sink r = (case r of Inl err \<Rightarrow> Inl err | Inr s \<Rightarrow> Inr (OtherEventSink s))"

definition Build :: "'s backends \<Rightarrow> Uri \<Rightarrow> error + 's EventSink" where
  "Build bk uri =
     (if Key uri = ''gcl'' then other_sink (CreateGCLSink bk (Val uri))
      else if Key uri = ''log'' then other_sink (CreateLogSink bk)
      else if Key uri = ''influxdb'' then other_sink (CreateInfluxdbSink bk (Val uri))
      else if Key uri = ''elasticsearch'' then other_sink (NewElasticSearchSink bk (Val uri))
      else if Key uri = ''kafka'' then other_sink (NewKafkaSink bk (Val uri))
      else if Key uri = ''riemann'' then other_sink (CreateRiemannSink bk (Val uri))
      else if Key uri = ''honeycomb'' then other_sink (NewHoneycombSink bk (Val uri))
      else if Key uri = ''dingtalk'' then other_sink (NewDingTalkSink bk (Val uri))
      else if Key uri = ''sls'' then other_sink (NewSLSSink bk (Val uri))
      else if Key uri = ''alertmanager'' then
        (case NewAlertmanagerSink (Val uri) of
           Inl err \<Rightarrow> Inl err
         | Inr d \<Rightarrow> Inr (AlertmanagerEventSink d))
      else Inl (SinkNotRecognized (Key uri)))"

text \<open>
  \<^verbatim>\<open>BuildAll\<close>: the loop appends each sink built and logs each failure
  (\<^verbatim>\<open>"Failed to create %v sink: %v"\<close>, the specification and its error).
\<close>

definition BuildAll_body ::
  "'s backends \<Rightarrow> 's EventSink list \<times> (Uri \<times> error) list \<Rightarrow> Uri \<Rightarrow>
   's EventSink list \<times> (Uri \<times> error) list" where
  "BuildAll_body bk st uri =
     (case st of (result, errors) \<Rightarrow>
        (case Build bk uri of
           Inl err \<Rightarrow> (result, errors @ [(uri, err)])
         | Inr sink \<Rightarrow> (result @ [sink], errors)))"

definition BuildAll :: "'s backends \<Rightarrow> Uri list \<Rightarrow> 's EventSink list \<times> (Uri \<times> error) list" where
  "BuildAll bk uris = foldl (BuildAll_body bk) ([], []) uris"

section \<open>Notions of the specification and concrete inputs\<close>

text \<open>
  The alerts that an export hands to the backend: those of the request's body, none when
  no request is made.
\<close>

definition forwarded :: "request option \<Rightarrow> Alert list" where
  "forwarded rq = (case rq of None \<Rightarrow> [] | Some r \<Rightarrow> payload r)"

text \<open>The identity of an event: type, namespace, name, message and reason.\<close>

definition identity :: "event \<Rightarrow> string \<times> string \<times> string \<times> string \<times> string" where
  "identity event = (Type event, Namespace event, Name event, Message event, Reason event)"

text \<open>An event processed while the clock stands at \<open>now\<close>.\<close>

definition at :: "event \<Rightarrow> int \<Rightarrow> tick" where
  "at event now = \<lparr>ev = event, now_get = now, now_add = now\<rparr>"

definition oom_event :: event where
  "oom_event = \<lparr>Type = ''Warning'', Namespace = ''kube-system'', Name = ''pod-a'',
     Message = ''OOMKilled'', Reason = ''Evicted'', FirstTimestamp = 0\<rparr>"

definition demo_sink :: AlertmanagerSink where
  "demo_sink = \<lparr>Endpoint = ''alertmanager:9093/api/v1/alerts'', Level = 2, Cluster = ''demo''\<rparr>"

text \<open>
  The parsed forms of \<^verbatim>\<open>?cluster=prod&level=Warning\<close>, of \<^verbatim>\<open>?cluster=prod\<close>, of
  \<^verbatim>\<open>?cluster=prod&level=warning\<close> and of a URL with no query.
\<close>

definition prod_url :: url where
  "prod_url = \<lparr>Host = ''alertmanager:9093'', Path = ''/api/v1/alerts'',
     Query = (\<lambda>k. [])(''cluster'' := [''prod''], ''level'' := [''Warning''])\<rparr>"

definition nolevel_url :: url where
  "nolevel_url = \<lparr>Host = ''alertmanager:9093'', Path = ''/api/v1/alerts'',
     Query = (\<lambda>k. [])(''cluster'' := [''prod''])\<rparr>"

definition lowercase_level_url :: url where
  "lowercase_level_url = \<lparr>Host = ''alertmanager:9093'', Path = ''/api/v1/alerts'',
     Query = (\<lambda>k. [])(''cluster'' := [''prod''], ''level'' := [''warning''])\<rparr>"

definition noquery_url :: url where
  "noquery_url = \<lparr>Host = ''alertmanager:9093'', Path = ''/api/v1/alerts'', Query = (\<lambda>k. [])\<rparr>"

text \<open>The parsed form of \<^verbatim>\<open>?cluster=\<close>, and the sink built from it.\<close>

definition blank_cluster_url :: url where
  "blank_cluster_url = \<lparr>Host = ''alertmanager:9093'', Path = ''/api/v1/alerts'',
     Query = (\<lambda>k. [])(''cluster'' := [''''])\<rparr>"

definition blank_sink :: AlertmanagerSink where
  "blank_sink = \<lparr>Endpoint = ''alertmanager:9093/api/v1/alerts'', Level = 2, Cluster = ''''\<rparr>"

text \<open>Two events that split the text \<open>abc\<close> differently between namespace and name.\<close>

definition split_left :: event where
  "split_left = \<lparr>Type = ''Warning'', Namespace = ''ab'', Name = ''c'',
     Message = ''down'', Reason = ''Failed'', FirstTimestamp = 0\<rparr>"

definition split_right :: event where
  "split_right = \<lparr>Type = ''Warning'', Namespace = ''a'', Name = ''bc'',
     Message = ''down'', Reason = ''Failed'', FirstTimestamp = 0\<rparr>"

definition normal_event :: event where
  "normal_event = \<lparr>Type = ''Normal'', Namespace = ''kube-system'', Name = ''pod-a'',
     Message = ''Started'', Reason = ''Started'', FirstTimestamp = 0\<rparr>"

definition silent_event :: event where
  "silent_event = \<lparr>Type = ''Warning'', Namespace = ''kube-system'', Name = ''pod-a'',
     Message = '''', Reason = ''Evicted'', FirstTimestamp = 0\<rparr>"

definition unhealthy_event :: event where
  "unhealthy_event = \<lparr>Type = ''Warning'', Namespace = ''kube-system'', Name = ''pod-a'',
     Message = ''Readiness probe failed'', Reason = ''Unhealthy'', FirstTimestamp = 0\<rparr>"

text \<open>The keys of the switch in \<open>Build\<close>.\<close>

definition known_keys :: "string list" where
  "known_keys = [''gcl'', ''log'', ''influxdb'', ''elasticsearch'', ''kafka'', ''riemann'',
     ''honeycomb'', ''dingtalk'', ''sls'', ''alertmanager'']"

text \<open>
  Constructors for the other backends in which only the log sink can be built, and three
  sink specifications: a valid alertmanager one, one with an unknown key, a log one.
\<close>

definition stub_backends :: "unit backends" where
  "stub_backends =
     \<lparr>CreateGCLSink = (\<lambda>u. Inl (BackendError ''gcl'')),
      CreateLogSink = Inr (),
      CreateInfluxdbSink = (\<lambda>u. Inl (BackendError ''influxdb'')),
      NewElasticSearchSink = (\<lambda>u. Inl (BackendError ''elasticsearch'')),
      NewKafkaSink = (\<lambda>u. Inl (BackendError ''kafka'')),
      CreateRiemannSink = (\<lambda>u. Inl (BackendError ''riemann'')),
      NewHoneycombSink = (\<lambda>u. Inl (BackendError ''honeycomb'')),
      NewDingTalkSink = (\<lambda>u. Inl (BackendError ''dingtalk'')),
      NewSLSSink = (\<lambda>u. Inl (BackendError ''sls''))\<rparr>"

definition uri_alertmanager :: Uri where
  "uri_alertmanager = \<lparr>Key = ''alertmanager'', Val = prod_url\<rparr>"

definition uri_unknown :: Uri where
  "uri_unknown = \<lparr>Key = ''stdout'', Val = noquery_url\<rparr>"

definition uri_log :: Uri where
  "uri_log = \<lparr>Key = ''log'', Val = noquery_url\<rparr>"

text \<open>
  The expiry that the recorder stores for a fingerprint, if it stores one, and the number
  of entries in front of that entry (0 when it is the most recent one).
\<close>

definition expiry_of :: "cache \<Rightarrow> string \<Rightarrow> int option" where
  "expiry_of c k = map_option expiresAt (find (\<lambda>e. key e = k) (lru c))"

definition depth :: "cache \<Rightarrow> string \<Rightarrow> nat" where
  "depth c k = length (takeWhile (\<lambda>e. key e \<noteq> k) (lru c))"

text \<open>The entry that the export loop adds for an event.\<close>

definition fresh_entry :: "tick \<Rightarrow> entry" where
  "fresh_entry t = \<lparr>key = generateKey (ev t), val = 1, expiresAt = now_add t + Second * 300\<rparr>"

text \<open>
  500 warning events with pairwise different names, all processed at instant 0, and an
  event with a message that has the fingerprint of \<open>silent_event\<close>.
\<close>

definition filler :: "nat \<Rightarrow> tick" where
  "filler n = at \<lparr>Type = ''Warning'', Namespace = ''fill'', Name = replicate n CHR ''x'',
     Message = ''filler'', Reason = ''none'', FirstTimestamp = 0\<rparr> 0"

definition fillers :: "tick list" where
  "fillers = map filler [0..<500]"

definition loud_event :: event where
  "loud_event = \<lparr>Type = ''Warning'', Namespace = ''kube-system'', Name = ''pod-a'',
     Message = ''Evicted'', Reason = '''', FirstTimestamp = 0\<rparr>"

text \<open>The alerts that \<open>demo_sink\<close> builds from \<open>oom_event\<close> and from \<open>loud_event\<close>.\<close>

definition oom_alert :: Alert where
  "oom_alert = \<lparr>Labels = [''alertname'' \<mapsto> ''OOMKilled'', ''group'' \<mapsto> ''KUBE-SYSTEM'',
       ''level'' \<mapsto> ''Warning'', ''instance'' \<mapsto> ''pod-a'', ''reason'' \<mapsto> ''Evicted'',
       ''cluster'' \<mapsto> ''demo''],
     Annotations = Map.empty\<rparr>"

definition loud_alert :: Alert where
  "loud_alert = \<lparr>Labels = [''alertname'' \<mapsto> ''Evicted'', ''group'' \<mapsto> ''KUBE-SYSTEM'',
       ''level'' \<mapsto> ''Warning'', ''instance'' \<mapsto> ''pod-a'', ''cluster'' \<mapsto> ''demo''],
     Annotations = Map.empty\<rparr>"

text \<open>
  The state of the loop at the start of the first export, and after \<open>oom_event\<close> has been
  processed at instant 0 and again one second later.
\<close>

definition run0 :: run where
  "run0 = \<lparr>recorder = recorder_init, alerts = [], logged = []\<rparr>"

definition run_oom :: run where
  "run_oom = foldl (ExportEvents_dedup_body demo_sink)
     (ExportEvents_dedup_body demo_sink run0 (at oom_event 0)) [at oom_event Second]"

section \<open>Severity and construction of the sink\<close>

lemmas label_defs =
  AlertNameLabel_def AlertClusterLabel_def AlertGroupLabel_def AlertLevelLabel_def
  AlertInstanceLabel_def AlertReasonLabel_def

lemma getLevel_simps:
  "getLevel ''Warning'' = 2" "getLevel ''Normal'' = 1"
  "l \<noteq> ''Warning'' \<Longrightarrow> l \<noteq> ''Normal'' \<Longrightarrow> getLevel l = 0"
  by (simp_all add: getLevel_def EventTypeWarning_def EventTypeNormal_def)

lemma getLevel_nonneg: "0 \<le> getLevel l"
  by (simp add: getLevel_def)

lemma isEventLevelDangerous_iff: "isEventLevelDangerous a l \<longleftrightarrow> Level a \<le> getLevel l"
  by (simp add: isEventLevelDangerous_def)

text \<open>
  Claim C5. A URI whose query has \<open>cluster=prod\<close> and \<open>level=Warning\<close> gives a sink of
  threshold 2, the score of \<open>Warning\<close>, and of cluster \<open>prod\<close>. With no \<open>level\<close>
  parameter the threshold is 2. With a \<open>level\<close> value that is neither \<open>Warning\<close> nor
  \<open>Normal\<close> the threshold is 0 and every event type passes the severity test. With no
  \<open>cluster\<close> parameter the construction fails with the error that asks for a cluster name.
\<close>

theorem NewAlertmanagerSink_threshold:
  "(Query uri ''cluster'' = ''prod'' # cs \<and> Query uri ''level'' = ''Warning'' # ls \<longrightarrow>
      (\<exists>a. NewAlertmanagerSink uri = Inr a \<and> Level a = 2 \<and> Level a = getLevel EventTypeWarning
           \<and> Cluster a = ''prod''))
   \<and> (Query uri ''cluster'' = c # cs \<and> Query uri ''level'' = [] \<longrightarrow>
      (\<exists>a. NewAlertmanagerSink uri = Inr a \<and> Level a = 2 \<and> Cluster a = c))
   \<and> (Query uri ''cluster'' = c # cs \<and> Query uri ''level'' = l # ls
        \<and> l \<noteq> ''Warning'' \<and> l \<noteq> ''Normal'' \<longrightarrow>
      (\<exists>a. NewAlertmanagerSink uri = Inr a \<and> Level a = 0 \<and> Cluster a = c
           \<and> (\<forall>level. isEventLevelDangerous a level)))
   \<and> (Query uri ''cluster'' = [] \<longrightarrow> NewAlertmanagerSink uri = Inl ClusterNameMissing)"
  by (simp add: NewAlertmanagerSink_def WARNING_def getLevel_simps EventTypeWarning_def
      isEventLevelDangerous_iff getLevel_nonneg Let_def)

theorem NewAlertmanagerSink_threshold_witness:
  "(\<exists>a. NewAlertmanagerSink prod_url = Inr a \<and> Level a = 2 \<and> Cluster a = ''prod'')
   \<and> (\<exists>a. NewAlertmanagerSink nolevel_url = Inr a \<and> Level a = 2 \<and> Cluster a = ''prod'')
   \<and> (\<exists>a. NewAlertmanagerSink lowercase_level_url = Inr a \<and> Level a = 0
          \<and> isEventLevelDangerous a ''Normal'')
   \<and> NewAlertmanagerSink noquery_url = Inl ClusterNameMissing"
proof -
  have h1: "Query prod_url ''cluster'' = ''prod'' # [] \<and> Query prod_url ''level'' = ''Warning'' # []"
    by (simp add: prod_url_def)
  have h2: "Query nolevel_url ''cluster'' = ''prod'' # [] \<and> Query nolevel_url ''level'' = []"
    by (simp add: nolevel_url_def)
  have h3: "Query lowercase_level_url ''cluster'' = ''prod'' # []
      \<and> Query lowercase_level_url ''level'' = ''warning'' # []
      \<and> ''warning'' \<noteq> ''Warning'' \<and> ''warning'' \<noteq> ''Normal''"
    by (simp add: lowercase_level_url_def)
  have h4: "Query noquery_url ''cluster'' = []"
    by (simp add: noquery_url_def)
  have 1: "\<exists>a. NewAlertmanagerSink prod_url = Inr a \<and> Level a = 2 \<and> Cluster a = ''prod''"
    using NewAlertmanagerSink_threshold [where uri = prod_url and cs = "[]" and ls = "[]"] h1
    by blast
  have 2: "\<exists>a. NewAlertmanagerSink nolevel_url = Inr a \<and> Level a = 2 \<and> Cluster a = ''prod''"
    using NewAlertmanagerSink_threshold [where uri = nolevel_url and cs = "[]" and c = "''prod''"] h2
    by blast
  have 3: "\<exists>a. NewAlertmanagerSink lowercase_level_url = Inr a \<and> Level a = 0
      \<and> isEventLevelDangerous a ''Normal''"
    using NewAlertmanagerSink_threshold [where uri = lowercase_level_url and cs = "[]"
        and ls = "[]" and c = "''prod''" and l = "''warning''"] h3
    by blast
  have 4: "NewAlertmanagerSink noquery_url = Inl ClusterNameMissing"
    using NewAlertmanagerSink_threshold [where uri = noquery_url] h4 by blast
  from 1 2 3 4 show ?thesis by blast
qed

lemma ToUpper_kube_system: "ToUpper ''kube-system'' = ''KUBE-SYSTEM''"
  by code_simp

section \<open>The loop of \<^verbatim>\<open>alertmanager.go\<close>\<close>

lemma ExportEvents_body_fst:
  "fst (ExportEvents_body a st event) = fst st @ fst (ExportEvents_body a ([], []) event)"
  by (simp add: ExportEvents_body_def split: prod.splits sum.splits)

lemma ExportEvents_body_snd:
  "snd (ExportEvents_body a st event) = snd st @ snd (ExportEvents_body a ([], []) event)"
  by (simp add: ExportEvents_body_def split: prod.splits sum.splits)

lemma ExportEvents_foldl_fst:
  "fst (foldl (ExportEvents_body a) st batch) =
     fst st @ concat (map (\<lambda>event. fst (ExportEvents_body a ([], []) event)) batch)"
proof (induction batch arbitrary: st)
  case Nil
  show ?case by simp
next
  case (Cons event batch)
  show ?case
    by (simp add: Cons.IH ExportEvents_body_fst [of a st event])
qed

lemma ExportEvents_foldl_snd:
  "snd (foldl (ExportEvents_body a) st batch) =
     snd st @ concat (map (\<lambda>event. snd (ExportEvents_body a ([], []) event)) batch)"
proof (induction batch arbitrary: st)
  case Nil
  show ?case by simp
next
  case (Cons event batch)
  show ?case
    by (simp add: Cons.IH ExportEvents_body_snd [of a st event])
qed

lemma ExportEvents_forwarded:
  "forwarded (fst (ExportEvents a batch)) =
     concat (map (\<lambda>event. fst (ExportEvents_body a ([], []) event)) batch)"
proof -
  obtain als lg where f: "foldl (ExportEvents_body a) ([], []) batch = (als, lg)"
    by (cases "foldl (ExportEvents_body a) ([], []) batch")
  from ExportEvents_foldl_fst [of a "([], [])" batch] f
  have "als = concat (map (\<lambda>event. fst (ExportEvents_body a ([], []) event)) batch)"
    by simp
  with f show ?thesis
    by (simp add: ExportEvents_def forwarded_def Send_def)
qed

lemma ExportEvents_fst:
  "fst (ExportEvents a batch) =
     (if forwarded (fst (ExportEvents a batch)) = [] then None
      else Some (Send a (forwarded (fst (ExportEvents a batch)))))"
  by (simp add: ExportEvents_def forwarded_def Send_def split: prod.splits)

lemma ExportEvents_snd:
  "snd (ExportEvents a batch) =
     concat (map (\<lambda>event. snd (ExportEvents_body a ([], []) event)) batch)"
  using ExportEvents_foldl_snd [of a "([], [])" batch]
  by (auto simp: ExportEvents_def split: prod.splits)

lemma ExportEvents_body_built:
  "al \<in> set (fst (ExportEvents_body a ([], []) event)) \<longleftrightarrow>
     Level a \<le> getLevel (Type event) \<and> createAlertFromEvent (Cluster a) event = Inr al"
  by (cases "createAlertFromEvent (Cluster a) event")
    (auto simp: ExportEvents_body_def isEventLevelDangerous_iff)

lemma ExportEvents_body_not_dangerous:
  "getLevel (Type event) < Level a \<Longrightarrow> ExportEvents_body a st event = st"
  by (simp add: ExportEvents_body_def isEventLevelDangerous_iff split: prod.splits)

lemma ExportEvents_dedup_body_not_dangerous:
  "getLevel (Type (ev t)) < Level a \<Longrightarrow> ExportEvents_dedup_body a st t = st"
  by (simp add: ExportEvents_dedup_body_def isEventLevelDangerous_iff Let_def)

text \<open>
  Claim C2. The score of an event type is 2 for \<open>Warning\<close>, 1 for \<open>Normal\<close> and 0 for
  any other type. An event whose score is strictly below the threshold of the sink
  produces no alert: exported alone it causes no request, and a batch with it causes
  the same request, with the same alerts, and the same log as the batch without it;
  every alert of a request was built from an event of the batch whose score reaches the
  threshold. The deduplicating variant behaves the same and leaves the recorder as it
  would be without the event.
\<close>

theorem below_threshold_not_forwarded:
  assumes "getLevel (Type event) < Level a"
  shows "ExportEvents a [event] = (None, [])
    \<and> ExportEvents a (pre @ event # post) = ExportEvents a (pre @ post)
    \<and> (\<forall>al. al \<in> set (forwarded (fst (ExportEvents a batch))) \<longrightarrow>
          (\<exists>e \<in> set batch. Level a \<le> getLevel (Type e)
              \<and> createAlertFromEvent (Cluster a) e = Inr al))
    \<and> (ev t = event \<longrightarrow>
          ExportEvents_dedup a r [t] = (r, None, [])
        \<and> ExportEvents_dedup a r (tpre @ t # tpost) = ExportEvents_dedup a r (tpre @ tpost))
    \<and> getLevel ''Warning'' = 2 \<and> getLevel ''Normal'' = 1
    \<and> (\<forall>l. l \<noteq> ''Warning'' \<and> l \<noteq> ''Normal'' \<longrightarrow> getLevel l = 0)"
proof -
  have 1: "ExportEvents a [event] = (None, [])"
    by (simp add: ExportEvents_def ExportEvents_body_not_dangerous [OF assms])
  have 2: "ExportEvents a (pre @ event # post) = ExportEvents a (pre @ post)"
    by (simp add: ExportEvents_def ExportEvents_body_not_dangerous [OF assms])
  have 3: "\<exists>e \<in> set batch. Level a \<le> getLevel (Type e)
      \<and> createAlertFromEvent (Cluster a) e = Inr al"
    if "al \<in> set (forwarded (fst (ExportEvents a batch)))" for al
    using that
    by (auto simp: ExportEvents_forwarded ExportEvents_body_built)
  have 4: "ExportEvents_dedup a r [t] = (r, None, [])
      \<and> ExportEvents_dedup a r (tpre @ t # tpost) = ExportEvents_dedup a r (tpre @ tpost)"
    if "ev t = event"
    using that assms
    by (simp add: ExportEvents_dedup_def ExportEvents_dedup_loop_def
        ExportEvents_dedup_body_not_dangerous)
  from 1 2 3 4 show ?thesis
    by (simp add: getLevel_simps)
qed

theorem below_threshold_not_forwarded_witness:
  "getLevel (Type normal_event) < Level demo_sink
   \<and> ExportEvents demo_sink [normal_event] = (None, [])
   \<and> ExportEvents demo_sink ([oom_event] @ normal_event # [oom_event])
       = ExportEvents demo_sink ([oom_event] @ [oom_event])
   \<and> ExportEvents_dedup demo_sink recorder_init [at normal_event 0] = (recorder_init, None, [])"
proof -
  have h: "getLevel (Type normal_event) < Level demo_sink"
    by (simp add: normal_event_def demo_sink_def getLevel_simps)
  have t: "ev (at normal_event 0) = normal_event"
    by (simp add: at_def)
  from below_threshold_not_forwarded [OF h, of "[oom_event]" "[oom_event]" "[]"
      "at normal_event 0" recorder_init "[]" "[]"] h t
  show ?thesis by simp
qed

section \<open>Alert construction\<close>

lemma createAlertFromEvent_oom:
  assumes "Type event = ''Warning''" "Namespace event = ''kube-system''" "Name event = ''pod-a''"
    "Message event = ''OOMKilled''" "Reason event = ''Evicted''"
  shows "createAlertFromEvent ''demo'' event =
     Inr \<lparr>Labels = [''alertname'' \<mapsto> ''OOMKilled'', ''group'' \<mapsto> ''KUBE-SYSTEM'',
                    ''level'' \<mapsto> ''Warning'', ''instance'' \<mapsto> ''pod-a'',
                    ''reason'' \<mapsto> ''Evicted'', ''cluster'' \<mapsto> ''demo''],
          Annotations = Map.empty\<rparr>"
  using assms by (simp add: createAlertFromEvent_def label_defs ToUpper_kube_system)

lemma recorder_init_fresh:
  "Get recorder_init k now = (recorder_init, None)"
  "Add recorder_init k v x = recorder_init\<lparr>lru := [\<lparr>key = k, val = v, expiresAt = x\<rparr>]\<rparr>"
  by (simp_all add: Get_def Add_def recorder_init_def MAX_RECORDER_def)

lemma isIgnoreAlert_loop_iff:
  "isIgnoreAlert_loop event vs ignore \<longleftrightarrow> ignore \<or> Reason event \<in> set vs"
  by (induction vs arbitrary: ignore) auto

lemma isIgnoreAlert_iff: "isIgnoreAlert a event \<longleftrightarrow> Reason event \<in> set ignoreAlerts"
  by (simp add: isIgnoreAlert_def isIgnoreAlert_loop_iff)

text \<open>
  Claim C3. The batch of the single event of type \<open>Warning\<close>, namespace \<open>kube-system\<close>,
  name \<open>pod-a\<close>, message \<open>OOMKilled\<close> and reason \<open>Evicted\<close>, exported by a sink whose
  threshold is the score of \<open>Warning\<close> and whose cluster is \<open>demo\<close>, causes one request
  whose body is exactly one alert: its labels are \<open>alertname = OOMKilled\<close>,
  \<open>group = KUBE-SYSTEM\<close> (the namespace in upper case), \<open>level = Warning\<close>,
  \<open>instance = pod-a\<close>, \<open>reason = Evicted\<close> and \<open>cluster = demo\<close>, and nothing else. The
  deduplicating variant, starting from the empty recorder, makes the same request.
\<close>

theorem scenario_oom_event:
  assumes "Type event = ''Warning''" and "Namespace event = ''kube-system''"
    and "Name event = ''pod-a''" and "Message event = ''OOMKilled''"
    and "Reason event = ''Evicted''"
    and "Level a = getLevel EventTypeWarning" and "Cluster a = ''demo''"
  shows "ExportEvents a [event] =
      (Some \<lparr>address = ''http://'' @ Endpoint a, content_type = ''application/json'',
             payload = [\<lparr>Labels = [''alertname'' \<mapsto> ''OOMKilled'', ''group'' \<mapsto> ''KUBE-SYSTEM'',
                                   ''level'' \<mapsto> ''Warning'', ''instance'' \<mapsto> ''pod-a'',
                                   ''reason'' \<mapsto> ''Evicted'', ''cluster'' \<mapsto> ''demo''],
                         Annotations = Map.empty\<rparr>]\<rparr>, [])
    \<and> snd (ExportEvents_dedup a recorder_init [\<lparr>ev = event, now_get = tg, now_add = ta\<rparr>]) =
      (Some \<lparr>address = ''http://'' @ Endpoint a, content_type = ''application/json'',
             payload = [\<lparr>Labels = [''alertname'' \<mapsto> ''OOMKilled'', ''group'' \<mapsto> ''KUBE-SYSTEM'',
                                   ''level'' \<mapsto> ''Warning'', ''instance'' \<mapsto> ''pod-a'',
                                   ''reason'' \<mapsto> ''Evicted'', ''cluster'' \<mapsto> ''demo''],
                         Annotations = Map.empty\<rparr>]\<rparr>, [])"
proof -
  have d: "isEventLevelDangerous a (Type event)"
    using assms by (simp add: isEventLevelDangerous_iff EventTypeWarning_def)
  have i: "\<not> isIgnoreAlert a event"
    using assms by (simp add: isIgnoreAlert_iff ignoreAlerts_def)
  note c = createAlertFromEvent_oom [OF assms(1-5)]
  have 1: "ExportEvents a [event] =
      (Some (Send a [\<lparr>Labels = [''alertname'' \<mapsto> ''OOMKilled'', ''group'' \<mapsto> ''KUBE-SYSTEM'',
                                   ''level'' \<mapsto> ''Warning'', ''instance'' \<mapsto> ''pod-a'',
                                   ''reason'' \<mapsto> ''Evicted'', ''cluster'' \<mapsto> ''demo''],
                         Annotations = Map.empty\<rparr>]), [])"
    using d c assms(7) by (simp add: ExportEvents_def ExportEvents_body_def)
  have 2: "snd (ExportEvents_dedup a recorder_init [\<lparr>ev = event, now_get = tg, now_add = ta\<rparr>]) =
      (Some (Send a [\<lparr>Labels = [''alertname'' \<mapsto> ''OOMKilled'', ''group'' \<mapsto> ''KUBE-SYSTEM'',
                                   ''level'' \<mapsto> ''Warning'', ''instance'' \<mapsto> ''pod-a'',
                                   ''reason'' \<mapsto> ''Evicted'', ''cluster'' \<mapsto> ''demo''],
                         Annotations = Map.empty\<rparr>]), [])"
    using d i c assms(7)
    by (simp add: ExportEvents_dedup_def ExportEvents_dedup_loop_def ExportEvents_dedup_body_def
        recorder_init_fresh Let_def)
  from 1 2 show ?thesis
    by (simp add: Send_def CONTENT_TYPE_JSON_def)
qed

theorem scenario_oom_event_witness:
  "fst (ExportEvents demo_sink [oom_event]) =
      Some \<lparr>address = ''http://alertmanager:9093/api/v1/alerts'',
            content_type = ''application/json'',
            payload = [\<lparr>Labels = [''alertname'' \<mapsto> ''OOMKilled'', ''group'' \<mapsto> ''KUBE-SYSTEM'',
                                  ''level'' \<mapsto> ''Warning'', ''instance'' \<mapsto> ''pod-a'',
                                  ''reason'' \<mapsto> ''Evicted'', ''cluster'' \<mapsto> ''demo''],
                        Annotations = Map.empty\<rparr>]\<rparr>"
proof -
  have h: "Type oom_event = ''Warning''" "Namespace oom_event = ''kube-system''"
    "Name oom_event = ''pod-a''" "Message oom_event = ''OOMKilled''"
    "Reason oom_event = ''Evicted''" "Level demo_sink = getLevel EventTypeWarning"
    "Cluster demo_sink = ''demo''"
    by (simp_all add: oom_event_def demo_sink_def getLevel_def)
  from scenario_oom_event [OF h, of 0 0] show ?thesis
    by (simp add: demo_sink_def)
qed

section \<open>Empty messages\<close>

lemma createAlertFromEvent_empty:
  "Message event = '''' \<Longrightarrow> createAlertFromEvent cluster event = Inl NotVaildAlertName"
  by (simp add: createAlertFromEvent_def)

lemma createAlertFromEvent_Inr:
  "createAlertFromEvent cluster event = Inr al \<Longrightarrow>
     Message event \<noteq> '''' \<and> Labels al ''alertname'' = Some (Message event)
     \<and> Labels al ''cluster'' = Some cluster"
  by (auto simp: createAlertFromEvent_def label_defs Let_def split: if_splits)

lemma createAlertFromEvent_nonempty:
  "Message event \<noteq> '''' \<Longrightarrow> \<exists>al. createAlertFromEvent cluster event = Inr al"
  by (simp add: createAlertFromEvent_def Let_def)

text \<open>
  Claim C4. For an event with an empty message the construction of the alert fails with
  the error \<open>NotVaildAlertName\<close>; the loop goes on: the request of a batch that holds the
  event is the request of the batch without it, made of the alerts of the events before
  it followed by those of the events after it. Conversely the construction succeeds
  for every event with a non-empty message, and when the type of such an event passes
  the severity test its alert stands in the request between the alerts of the events
  before it and those of the events after it.
\<close>

theorem empty_message_skipped:
  "(Message event = '''' \<longrightarrow>
      createAlertFromEvent cluster event = Inl NotVaildAlertName
      \<and> fst (ExportEvents a (pre @ event # post)) = fst (ExportEvents a (pre @ post))
      \<and> forwarded (fst (ExportEvents a (pre @ event # post))) =
          forwarded (fst (ExportEvents a pre)) @ forwarded (fst (ExportEvents a post))
      \<and> alerts (ExportEvents_dedup_body a st \<lparr>ev = event, now_get = tg, now_add = ta\<rparr>) = alerts st)
   \<and> (Message event \<noteq> '''' \<longrightarrow>
      (\<exists>alert. createAlertFromEvent cluster event = Inr alert)
      \<and> (isEventLevelDangerous a (Type event) \<longrightarrow>
           (\<exists>alert. createAlertFromEvent (Cluster a) event = Inr alert
             \<and> forwarded (fst (ExportEvents a (pre @ event # post))) =
                 forwarded (fst (ExportEvents a pre)) @ [alert]
                   @ forwarded (fst (ExportEvents a post)))))"
proof -
  have 1: "fst (ExportEvents_body a ([], []) event) = []" if "Message event = ''''"
    using that by (simp add: ExportEvents_body_def createAlertFromEvent_empty)
  have 2: "forwarded (fst (ExportEvents a (pre @ event # post))) =
      forwarded (fst (ExportEvents a pre)) @ forwarded (fst (ExportEvents a post))"
    if "Message event = ''''"
    using 1 [OF that] by (simp add: ExportEvents_forwarded)
  have 3: "fst (ExportEvents a (pre @ event # post)) = fst (ExportEvents a (pre @ post))"
    if "Message event = ''''"
    using 1 [OF that]
    by (subst (1 2) ExportEvents_fst) (simp add: ExportEvents_forwarded)
  have 4: "alerts (ExportEvents_dedup_body a st \<lparr>ev = event, now_get = tg, now_add = ta\<rparr>) = alerts st"
    if "Message event = ''''"
    using that
    by (simp add: ExportEvents_dedup_body_def Let_def createAlertFromEvent_empty
        split: prod.splits option.splits)
  have 5: "\<exists>alert. createAlertFromEvent (Cluster a) event = Inr alert
      \<and> forwarded (fst (ExportEvents a (pre @ event # post))) =
          forwarded (fst (ExportEvents a pre)) @ [alert] @ forwarded (fst (ExportEvents a post))"
    if "Message event \<noteq> ''''" "isEventLevelDangerous a (Type event)"
  proof -
    from createAlertFromEvent_nonempty [OF that(1)]
    obtain alert where c: "createAlertFromEvent (Cluster a) event = Inr alert" by blast
    with that(2) have "fst (ExportEvents_body a ([], []) event) = [alert]"
      by (simp add: ExportEvents_body_def)
    then have "forwarded (fst (ExportEvents a (pre @ event # post))) =
        forwarded (fst (ExportEvents a pre)) @ [alert] @ forwarded (fst (ExportEvents a post))"
      by (simp add: ExportEvents_forwarded)
    with c show ?thesis by blast
  qed
  from 2 3 4 5 show ?thesis
    by (simp add: createAlertFromEvent_empty createAlertFromEvent_nonempty)
qed

theorem empty_message_skipped_witness:
  "Message silent_event = ''''
   \<and> createAlertFromEvent ''demo'' silent_event = Inl NotVaildAlertName
   \<and> fst (ExportEvents demo_sink ([oom_event] @ silent_event # [oom_event])) =
       fst (ExportEvents demo_sink ([oom_event] @ [oom_event]))
   \<and> Message oom_event \<noteq> '''' \<and> isEventLevelDangerous demo_sink (Type oom_event)
   \<and> (\<exists>alert. createAlertFromEvent (Cluster demo_sink) oom_event = Inr alert
       \<and> forwarded (fst (ExportEvents demo_sink ([silent_event] @ oom_event # []))) =
           forwarded (fst (ExportEvents demo_sink [silent_event])) @ [alert]
             @ forwarded (fst (ExportEvents demo_sink [])))"
proof -
  have h1: "Message silent_event = ''''"
    by (simp add: silent_event_def)
  have h2: "Message oom_event \<noteq> ''''" "isEventLevelDangerous demo_sink (Type oom_event)"
    by (simp_all add: oom_event_def demo_sink_def isEventLevelDangerous_iff getLevel_simps)
  from empty_message_skipped [of silent_event "''demo''" demo_sink "[oom_event]" "[oom_event]"]
    empty_message_skipped [of oom_event "''demo''" demo_sink "[silent_event]" "[]"] h1 h2
  show ?thesis by blast
qed

section \<open>The loop of the deduplicating variant\<close>

lemma ExportEvents_dedup_body_recorder:
  "recorder (ExportEvents_dedup_body a st t) =
     (if isEventLevelDangerous a (Type (ev t)) \<and> \<not> isIgnoreAlert a (ev t)
      then (case Get (recorder st) (generateKey (ev t)) (now_get t) of
              (r, Some ok) \<Rightarrow> r
            | (r, None) \<Rightarrow> Add r (generateKey (ev t)) 1 (now_add t + Second * 300))
      else recorder st)"
proof -
  obtain r res where g: "Get (recorder st) (generateKey (ev t)) (now_get t) = (r, res)"
    by (cases "Get (recorder st) (generateKey (ev t)) (now_get t)")
  show ?thesis
    by (cases res; cases "createAlertFromEvent (Cluster a) (ev t)")
      (simp_all add: ExportEvents_dedup_body_def Let_def g)
qed

lemma ExportEvents_dedup_body_alerts_eq:
  "alerts (ExportEvents_dedup_body a st t) =
     alerts st @
     (if isEventLevelDangerous a (Type (ev t)) \<and> \<not> isIgnoreAlert a (ev t)
         \<and> snd (Get (recorder st) (generateKey (ev t)) (now_get t)) = None
      then (case createAlertFromEvent (Cluster a) (ev t) of Inl err \<Rightarrow> [] | Inr alert \<Rightarrow> [alert])
      else [])"
proof -
  obtain r res where g: "Get (recorder st) (generateKey (ev t)) (now_get t) = (r, res)"
    by (cases "Get (recorder st) (generateKey (ev t)) (now_get t)")
  show ?thesis
    by (cases res; cases "createAlertFromEvent (Cluster a) (ev t)")
      (simp_all add: ExportEvents_dedup_body_def Let_def g)
qed

lemma ExportEvents_dedup_body_logged:
  "logged (ExportEvents_dedup_body a st t) =
     logged st @
     (if isEventLevelDangerous a (Type (ev t)) then
        if isIgnoreAlert a (ev t) then [SkipIgnore (ev t)]
        else if snd (Get (recorder st) (generateKey (ev t)) (now_get t)) \<noteq> None
        then [SkipNotFirst (ev t)]
        else (case createAlertFromEvent (Cluster a) (ev t) of
                Inl err \<Rightarrow> [FailedCreate (ev t)] | Inr alert \<Rightarrow> [])
      else [])"
proof -
  obtain r res where g: "Get (recorder st) (generateKey (ev t)) (now_get t) = (r, res)"
    by (cases "Get (recorder st) (generateKey (ev t)) (now_get t)")
  show ?thesis
    by (cases res; cases "createAlertFromEvent (Cluster a) (ev t)")
      (simp_all add: ExportEvents_dedup_body_def Let_def g)
qed

lemma ExportEvents_dedup_body_cong:
  assumes "recorder st = recorder st'" and "alerts st = alerts st'"
  shows "recorder (ExportEvents_dedup_body a st t) = recorder (ExportEvents_dedup_body a st' t)
    \<and> alerts (ExportEvents_dedup_body a st t) = alerts (ExportEvents_dedup_body a st' t)"
  by (simp only: ExportEvents_dedup_body_recorder ExportEvents_dedup_body_alerts_eq assms)

lemma ExportEvents_dedup_foldl_cong:
  assumes "recorder st = recorder st'" and "alerts st = alerts st'"
  shows "recorder (foldl (ExportEvents_dedup_body a) st ts)
         = recorder (foldl (ExportEvents_dedup_body a) st' ts)
    \<and> alerts (foldl (ExportEvents_dedup_body a) st ts)
         = alerts (foldl (ExportEvents_dedup_body a) st' ts)"
  using assms
proof (induction ts arbitrary: st st')
  case Nil
  then show ?case by simp
next
  case (Cons t ts)
  have "recorder (ExportEvents_dedup_body a st t) = recorder (ExportEvents_dedup_body a st' t)"
    and "alerts (ExportEvents_dedup_body a st t) = alerts (ExportEvents_dedup_body a st' t)"
    using ExportEvents_dedup_body_cong [OF Cons.prems] by blast+
  from Cons.IH [OF this] show ?case by simp
qed

lemma ExportEvents_dedup_body_alerts:
  assumes "al \<in> set (alerts (ExportEvents_dedup_body a st t))"
  shows "al \<in> set (alerts st) \<or> createAlertFromEvent (Cluster a) (ev t) = Inr al"
proof (cases "createAlertFromEvent (Cluster a) (ev t)")
  case (Inl e)
  have "alerts (ExportEvents_dedup_body a st t) = alerts st"
    by (simp add: ExportEvents_dedup_body_alerts_eq Inl)
  with assms show ?thesis by simp
next
  case (Inr alert)
  have "alerts (ExportEvents_dedup_body a st t) = alerts st
      \<or> alerts (ExportEvents_dedup_body a st t) = alerts st @ [alert]"
    by (simp add: ExportEvents_dedup_body_alerts_eq Inr)
  with assms Inr show ?thesis by auto
qed

lemma ExportEvents_dedup_foldl_alerts:
  "al \<in> set (alerts (foldl (ExportEvents_dedup_body a) st ts)) \<Longrightarrow>
     al \<in> set (alerts st) \<or> (\<exists>t \<in> set ts. createAlertFromEvent (Cluster a) (ev t) = Inr al)"
proof (induction ts arbitrary: st)
  case Nil
  then show ?case by simp
next
  case (Cons t ts)
  from Cons.IH [of "ExportEvents_dedup_body a st t"] Cons.prems
  have "al \<in> set (alerts (ExportEvents_dedup_body a st t))
      \<or> (\<exists>t \<in> set ts. createAlertFromEvent (Cluster a) (ev t) = Inr al)"
    by simp
  then show ?case
    using ExportEvents_dedup_body_alerts [of al a st t] by auto
qed

lemma ExportEvents_dedup_forwarded:
  "forwarded (fst (snd (ExportEvents_dedup a r batch))) = alerts (ExportEvents_dedup_loop a r batch)"
  by (simp add: ExportEvents_dedup_def forwarded_def Send_def Let_def)

section \<open>Labels of every alert\<close>

text \<open>
  Claim C9, as amended. Every alert that a sink built by \<open>NewAlertmanagerSink\<close> sends, in
  either variant of the export, has an \<open>alertname\<close> label that is not empty, and a
  \<open>cluster\<close> label whose value is the first value of the \<open>cluster\<close> parameter of the URI
  (so the label is empty exactly when that value is).
\<close>

theorem alert_labels_alertname_cluster:
  assumes "NewAlertmanagerSink uri = Inr a"
    and "al \<in> set (forwarded (fst (ExportEvents a batch)))
       \<or> al \<in> set (forwarded (fst (snd (ExportEvents_dedup a r tbatch))))"
  shows "(\<exists>m. Labels al ''alertname'' = Some m \<and> m \<noteq> '''')
    \<and> (\<exists>c cs. Query uri ''cluster'' = c # cs \<and> Cluster a = c \<and> Labels al ''cluster'' = Some c)"
proof -
  from assms(1) obtain c cs where q: "Query uri ''cluster'' = c # cs" and c: "Cluster a = c"
    by (auto simp: NewAlertmanagerSink_def Let_def split: list.splits)
  from assms(2) obtain event where "createAlertFromEvent (Cluster a) event = Inr al"
    by (auto simp: ExportEvents_forwarded ExportEvents_body_built ExportEvents_dedup_forwarded
        ExportEvents_dedup_loop_def dest!: ExportEvents_dedup_foldl_alerts)
  from createAlertFromEvent_Inr [OF this] q c show ?thesis
    by simp
qed

theorem alert_labels_alertname_cluster_witness:
  "\<exists>al. al \<in> set (forwarded (fst (ExportEvents
        \<lparr>Endpoint = ''alertmanager:9093/api/v1/alerts'', Level = 2, Cluster = ''prod''\<rparr>
        [oom_event])))
     \<and> Labels al ''alertname'' = Some ''OOMKilled'' \<and> Labels al ''cluster'' = Some ''prod''"
proof -
  let ?a = "\<lparr>Endpoint = ''alertmanager:9093/api/v1/alerts'', Level = 2, Cluster = ''prod''\<rparr>"
  have n: "NewAlertmanagerSink prod_url = Inr ?a"
    by (simp add: NewAlertmanagerSink_def prod_url_def Let_def getLevel_simps WARNING_def)
  obtain al where c: "createAlertFromEvent ''prod'' oom_event = Inr al"
    and l: "Labels al ''alertname'' = Some ''OOMKilled''"
    by (simp add: createAlertFromEvent_def oom_event_def label_defs)
  have m: "al \<in> set (forwarded (fst (ExportEvents ?a [oom_event])))"
    using c by (simp add: ExportEvents_forwarded ExportEvents_body_built oom_event_def
        getLevel_simps)
  from alert_labels_alertname_cluster [OF n, of al "[oom_event]"] m
  have "Labels al ''cluster'' = Some ''prod''"
    by auto
  with m l show ?thesis by blast
qed

text \<open>
  Claim C9 as stated fails: the URI with \<^verbatim>\<open>?cluster=\<close> is accepted, and the alert sent
  for an event has the empty string as its \<open>cluster\<close> label.
\<close>

theorem cluster_label_empty_counterexample:
  "NewAlertmanagerSink blank_cluster_url = Inr blank_sink
   \<and> forwarded (fst (ExportEvents blank_sink [oom_event])) =
       [\<lparr>Labels = [''alertname'' \<mapsto> ''OOMKilled'', ''group'' \<mapsto> ''KUBE-SYSTEM'',
                   ''level'' \<mapsto> ''Warning'', ''instance'' \<mapsto> ''pod-a'',
                   ''reason'' \<mapsto> ''Evicted'', ''cluster'' \<mapsto> ''''],
         Annotations = Map.empty\<rparr>]"
  by (simp add: NewAlertmanagerSink_def blank_cluster_url_def blank_sink_def Let_def WARNING_def
      ExportEvents_def ExportEvents_body_def isEventLevelDangerous_iff oom_event_def
      getLevel_simps createAlertFromEvent_def label_defs ToUpper_kube_system forwarded_def
      Send_def)

section \<open>The ignore list\<close>

lemma ExportEvents_dedup_body_ignored:
  "Reason (ev t) \<in> set ignoreAlerts \<Longrightarrow>
     ExportEvents_dedup_body a st t =
       (if isEventLevelDangerous a (Type (ev t))
        then st\<lparr>logged := logged st @ [SkipIgnore (ev t)]\<rparr> else st)"
  by (simp add: ExportEvents_dedup_body_def Let_def isIgnoreAlert_iff)

text \<open>
  Claim C7. The ignore list contains \<open>Unhealthy\<close>. In the deduplicating variant an event
  whose reason is on the ignore list adds no alert and does not touch the recorder,
  whatever its severity: exported alone it causes no request, and a batch with it causes
  the same request and leaves the same recorder as the batch without it.
\<close>

theorem ignored_reason_not_forwarded:
  assumes "Reason (ev t) \<in> set ignoreAlerts"
  shows "alerts (ExportEvents_dedup_body a st t) = alerts st
    \<and> recorder (ExportEvents_dedup_body a st t) = recorder st
    \<and> ExportEvents_dedup a r [t] =
        (r, None, if isEventLevelDangerous a (Type (ev t)) then [SkipIgnore (ev t)] else [])
    \<and> fst (ExportEvents_dedup a r (pre @ t # post)) = fst (ExportEvents_dedup a r (pre @ post))
    \<and> fst (snd (ExportEvents_dedup a r (pre @ t # post)))
        = fst (snd (ExportEvents_dedup a r (pre @ post)))
    \<and> ''Unhealthy'' \<in> set ignoreAlerts"
proof -
  note b = ExportEvents_dedup_body_ignored [OF assms]
  let ?st = "foldl (ExportEvents_dedup_body a) \<lparr>recorder = r, alerts = [], logged = []\<rparr> pre"
  have "recorder (ExportEvents_dedup_body a ?st t) = recorder ?st"
    and "alerts (ExportEvents_dedup_body a ?st t) = alerts ?st"
    by (simp_all add: b)
  from ExportEvents_dedup_foldl_cong [OF this, of a post]
  have "recorder (ExportEvents_dedup_loop a r (pre @ t # post))
          = recorder (ExportEvents_dedup_loop a r (pre @ post))"
    and "alerts (ExportEvents_dedup_loop a r (pre @ t # post))
          = alerts (ExportEvents_dedup_loop a r (pre @ post))"
    by (simp_all add: ExportEvents_dedup_loop_def)
  then show ?thesis
    by (simp add: b ExportEvents_dedup_def ExportEvents_dedup_loop_def Let_def ignoreAlerts_def)
qed

theorem ignored_reason_not_forwarded_witness:
  "Reason (ev (at unhealthy_event 0)) \<in> set ignoreAlerts
   \<and> isEventLevelDangerous demo_sink (Type unhealthy_event)
   \<and> ExportEvents_dedup demo_sink recorder_init [at unhealthy_event 0] =
       (recorder_init, None, [SkipIgnore unhealthy_event])"
proof -
  have h: "Reason (ev (at unhealthy_event 0)) \<in> set ignoreAlerts"
    by (simp add: at_def unhealthy_event_def ignoreAlerts_def)
  have d: "isEventLevelDangerous demo_sink (Type unhealthy_event)"
    by (simp add: isEventLevelDangerous_iff demo_sink_def unhealthy_event_def getLevel_simps)
  from ignored_reason_not_forwarded [OF h, of demo_sink _ recorder_init] h d
  show ?thesis by (simp add: at_def)
qed

section \<open>Fingerprints\<close>

text \<open>
  Claim C8, as amended. The fingerprint is the five identity fields written one after the
  other with no separator. Events with the same identity have the same fingerprint, and
  two events with different identities have different fingerprints when their types,
  their namespaces, their names and their messages have pairwise the same lengths.
\<close>

theorem generateKey_equal_lengths:
  "(identity e = identity e' \<longrightarrow> generateKey e = generateKey e')
   \<and> (length (Type e) = length (Type e') \<and> length (Namespace e) = length (Namespace e')
      \<and> length (Name e) = length (Name e') \<and> length (Message e) = length (Message e')
      \<and> identity e \<noteq> identity e' \<longrightarrow> generateKey e \<noteq> generateKey e')"
  by (auto simp: identity_def generateKey_def)

theorem generateKey_equal_lengths_witness:
  "identity split_left = identity (split_left\<lparr>FirstTimestamp := 1\<rparr>)
   \<and> generateKey split_left = generateKey (split_left\<lparr>FirstTimestamp := 1\<rparr>)
   \<and> identity oom_event \<noteq> identity (oom_event\<lparr>Name := ''pod-b''\<rparr>)
   \<and> generateKey oom_event \<noteq> generateKey (oom_event\<lparr>Name := ''pod-b''\<rparr>)"
  using generateKey_equal_lengths [of split_left "split_left\<lparr>FirstTimestamp := 1\<rparr>"]
    generateKey_equal_lengths [of oom_event "oom_event\<lparr>Name := ''pod-b''\<rparr>"]
  by (simp add: identity_def oom_event_def)

text \<open>
  Claim C8 as stated fails: two events that differ in namespace and name, and whose fields
  concatenate to the same text, have the same fingerprint.
\<close>

theorem generateKey_collision_counterexample:
  "identity split_left \<noteq> identity split_right
   \<and> generateKey split_left = generateKey split_right"
  by (simp add: identity_def generateKey_def split_left_def split_right_def)

section \<open>The factory\<close>

lemma BuildAll_body_simps:
  "Build bk uri = Inl err \<Longrightarrow>
     BuildAll_body bk (result, errors) uri = (result, errors @ [(uri, err)])"
  "Build bk uri = Inr sink \<Longrightarrow>
     BuildAll_body bk (result, errors) uri = (result @ [sink], errors)"
  by (simp_all add: BuildAll_body_def)

lemma BuildAll_foldl:
  "foldl (BuildAll_body bk) (result, errors) uris =
     (result @ List.map_filter
         (\<lambda>uri. case Build bk uri of Inl err \<Rightarrow> None | Inr sink \<Rightarrow> Some sink) uris,
      errors @ List.map_filter
         (\<lambda>uri. case Build bk uri of Inl err \<Rightarrow> Some (uri, err) | Inr sink \<Rightarrow> None) uris)"
proof (induction uris arbitrary: result errors)
  case Nil
  show ?case by (simp add: map_filter_simps)
next
  case (Cons uri uris)
  show ?case
    by (cases "Build bk uri") (simp_all add: BuildAll_body_simps Cons.IH map_filter_simps)
qed

lemma BuildAll_eq:
  "BuildAll bk uris =
     (List.map_filter
         (\<lambda>uri. case Build bk uri of Inl err \<Rightarrow> None | Inr sink \<Rightarrow> Some sink) uris,
      List.map_filter
         (\<lambda>uri. case Build bk uri of Inl err \<Rightarrow> Some (uri, err) | Inr sink \<Rightarrow> None) uris)"
  by (simp add: BuildAll_def BuildAll_foldl)

lemma BuildAll_skip:
  assumes "Build bk uri = Inl err"
  shows "fst (BuildAll bk (pre @ uri # post)) = fst (BuildAll bk pre) @ fst (BuildAll bk post)"
    and "snd (BuildAll bk (pre @ uri # post)) =
          snd (BuildAll bk pre) @ [(uri, err)] @ snd (BuildAll bk post)"
  by (simp_all add: BuildAll_eq List.map_filter_def assms)

lemma BuildAll_three:
  assumes "Build bk uri = Inl err" and "Build bk u1 = Inr s1" and "Build bk u2 = Inr s2"
  shows "BuildAll bk [uri, u1, u2] = ([s1, s2], [(uri, err)])"
    and "BuildAll bk [u1, uri, u2] = ([s1, s2], [(uri, err)])"
    and "BuildAll bk [u1, u2, uri] = ([s1, s2], [(uri, err)])"
  by (simp_all add: BuildAll_eq map_filter_simps assms)

lemma Build_unknown:
  "Key uri \<notin> set known_keys \<Longrightarrow> Build bk uri = Inl (SinkNotRecognized (Key uri))"
  by (simp add: Build_def known_keys_def)

text \<open>
  Claim C6. \<open>BuildAll\<close> returns exactly the sinks of the specifications whose \<open>Build\<close>
  succeeds, in the order of the specifications, and logs exactly the failing
  specifications with their errors, in order. A key that is none of the ten known
  backend kinds makes \<open>Build\<close> fail with \<open>SinkNotRecognized\<close>. A failing specification is
  skipped: the sinks of a list that holds it are those of the entries before it followed
  by those of the entries after it. Wherever one failing specification stands among two
  valid ones, the result is the two sinks in order, with one error logged.
\<close>

theorem BuildAll_keeps_built_sinks:
  "fst (BuildAll bk uris) =
      List.map_filter (\<lambda>uri. case Build bk uri of Inl err \<Rightarrow> None | Inr sink \<Rightarrow> Some sink) uris
   \<and> snd (BuildAll bk uris) =
      List.map_filter (\<lambda>uri. case Build bk uri of Inl err \<Rightarrow> Some (uri, err) | Inr sink \<Rightarrow> None)
        uris
   \<and> (Key uri \<notin> set known_keys \<longrightarrow> Build bk uri = Inl (SinkNotRecognized (Key uri)))
   \<and> (Build bk uri = Inl err \<longrightarrow>
        fst (BuildAll bk (pre @ uri # post)) = fst (BuildAll bk pre) @ fst (BuildAll bk post)
      \<and> snd (BuildAll bk (pre @ uri # post)) =
          snd (BuildAll bk pre) @ [(uri, err)] @ snd (BuildAll bk post))
   \<and> (Build bk uri = Inl err \<and> Build bk u1 = Inr s1 \<and> Build bk u2 = Inr s2 \<longrightarrow>
        BuildAll bk [uri, u1, u2] = ([s1, s2], [(uri, err)])
      \<and> BuildAll bk [u1, uri, u2] = ([s1, s2], [(uri, err)])
      \<and> BuildAll bk [u1, u2, uri] = ([s1, s2], [(uri, err)]))"
  by (simp add: BuildAll_eq [of bk uris] Build_unknown BuildAll_skip BuildAll_three)

theorem BuildAll_keeps_built_sinks_witness:
  "Key uri_unknown \<notin> set known_keys
   \<and> BuildAll stub_backends [uri_alertmanager, uri_unknown, uri_log] =
       ([AlertmanagerEventSink
           \<lparr>Endpoint = ''alertmanager:9093/api/v1/alerts'', Level = 2, Cluster = ''prod''\<rparr>,
         OtherEventSink ()],
        [(uri_unknown, SinkNotRecognized ''stdout'')])"
proof -
  have k: "Key uri_unknown \<notin> set known_keys"
    by (simp add: uri_unknown_def known_keys_def)
  have a: "Build stub_backends uri_alertmanager = Inr (AlertmanagerEventSink
      \<lparr>Endpoint = ''alertmanager:9093/api/v1/alerts'', Level = 2, Cluster = ''prod''\<rparr>)"
    by (simp add: Build_def uri_alertmanager_def NewAlertmanagerSink_def prod_url_def Let_def
        getLevel_simps WARNING_def)
  have l: "Build stub_backends uri_log = Inr (OtherEventSink ())"
    by (simp add: Build_def uri_log_def stub_backends_def other_sink_def)
  from BuildAll_keeps_built_sinks [of stub_backends _ uri_unknown
      "SinkNotRecognized ''stdout''" _ _ uri_alertmanager _ uri_log] k a l
  show ?thesis
    by (simp add: uri_unknown_def)
qed

section \<open>The recorder\<close>

lemma NewUnlocked_MAX_RECORDER: "NewUnlocked MAX_RECORDER = Some recorder_init"
  by (simp add: NewUnlocked_def recorder_init_def MAX_RECORDER_def)

lemma find_removeElement_other:
  "k' \<noteq> k \<Longrightarrow> find (\<lambda>e. key e = k) (removeElement k' es) = find (\<lambda>e. key e = k) es"
  by (induction es) (auto simp: removeElement_def)

lemma find_removeElement_same: "find (\<lambda>e. key e = k) (removeElement k es) = None"
  by (induction es) (auto simp: removeElement_def)

lemma takeWhile_removeElement_other:
  "k' \<noteq> k \<Longrightarrow>
     length (takeWhile (\<lambda>e. key e \<noteq> k) (removeElement k' es))
       \<le> length (takeWhile (\<lambda>e. key e \<noteq> k) es)"
  by (induction es) (auto simp: removeElement_def)

lemma find_butlast:
  "find P es = Some e \<Longrightarrow> Suc (length (takeWhile (\<lambda>x. \<not> P x) es)) < length es \<Longrightarrow>
     find P (butlast es) = Some e
     \<and> length (takeWhile (\<lambda>x. \<not> P x) (butlast es)) = length (takeWhile (\<lambda>x. \<not> P x) es)"
  by (induction es) (auto split: if_splits)

lemma find_Some_depth:
  "find P es = Some e \<Longrightarrow> length (takeWhile (\<lambda>x. \<not> P x) es) < length es"
  by (induction es) (auto split: if_splits)

lemma Get_size_limit: "size_limit (fst (Get c k now)) = size_limit c"
  by (simp add: Get_def split: option.splits)

lemma Add_size_limit: "size_limit (Add c k v x) = size_limit c"
  by (simp add: Add_def Let_def split: option.splits)

lemma Get_miss_iff:
  "snd (Get c k now) = None \<longleftrightarrow> (case expiry_of c k of None \<Rightarrow> True | Some x \<Rightarrow> x \<le> now)"
  by (auto simp: Get_def expiry_of_def split: option.splits)

lemma Get_miss_absent:
  "snd (Get c k now) = None \<Longrightarrow> expiry_of (fst (Get c k now)) k = None"
  by (auto simp: Get_def expiry_of_def find_removeElement_same split: option.splits if_splits)

lemma Get_hit:
  "expiry_of c k = Some x \<Longrightarrow> now < x \<Longrightarrow>
     snd (Get c k now) \<noteq> None \<and> expiry_of (fst (Get c k now)) k = Some x
     \<and> depth (fst (Get c k now)) k = 0"
  by (auto simp: Get_def expiry_of_def depth_def split: option.splits dest: find_Some_iff [THEN iffD1])

lemma Get_other:
  assumes "k' \<noteq> k"
  shows "expiry_of (fst (Get c k' now)) k = expiry_of c k"
    and "depth (fst (Get c k' now)) k
           \<le> depth c k + (if snd (Get c k' now) = None then 0 else 1)"
proof -
  have k: "key e = k' \<Longrightarrow> key e \<noteq> k" for e :: entry
    using assms by simp
  show "expiry_of (fst (Get c k' now)) k = expiry_of c k"
    using assms
    by (auto simp: Get_def expiry_of_def find_removeElement_other
        split: option.splits dest!: find_Some_iff [THEN iffD1])
  show "depth (fst (Get c k' now)) k \<le> depth c k + (if snd (Get c k' now) = None then 0 else 1)"
    using assms takeWhile_removeElement_other [OF assms, of "lru c"]
    by (auto simp: Get_def depth_def split: option.splits dest!: find_Some_iff [THEN iffD1])
qed

lemma Add_same:
  assumes "0 < size_limit c"
  shows "expiry_of (Add c k v x) k = Some x \<and> depth (Add c k v x) k = 0"
proof (cases "find (\<lambda>e. key e = k) (lru c)")
  case None
  have "butlast (e # lru c) = e # butlast (lru c)"
    if "int (length (e # lru c)) > size_limit c" for e :: entry
    using that assms by (cases "lru c") auto
  with None show ?thesis
    by (simp add: Add_def expiry_of_def depth_def Let_def)
next
  case (Some e)
  then have "key e = k"
    by (auto dest: find_Some_iff [THEN iffD1])
  with Some show ?thesis
    by (simp add: Add_def expiry_of_def depth_def)
qed

lemma Add_other:
  assumes "k' \<noteq> k" and "expiry_of c k = Some x" and "int (depth c k) + 1 < size_limit c"
  shows "expiry_of (Add c k' v x') k = Some x \<and> depth (Add c k' v x') k \<le> depth c k + 1"
proof (cases "find (\<lambda>e. key e = k') (lru c)")
  case None
  let ?new = "\<lparr>key = k', val = v, expiresAt = x'\<rparr>"
  from assms(2) obtain e where f: "find (\<lambda>e. key e = k) (lru c) = Some e" and e: "expiresAt e = x"
    by (auto simp: expiry_of_def)
  have f': "find (\<lambda>e. key e = k) (?new # lru c) = Some e"
    using assms(1) f by simp
  have d': "length (takeWhile (\<lambda>e. \<not> key e = k) (?new # lru c)) = Suc (depth c k)"
    using assms(1) by (simp add: depth_def)
  show ?thesis
  proof (cases "int (length (?new # lru c)) > size_limit c")
    case True
    with assms(3) d' have "Suc (length (takeWhile (\<lambda>e. \<not> key e = k) (?new # lru c)))
        < length (?new # lru c)"
      by simp
    from find_butlast [OF f' this] d' None True e show ?thesis
      by (simp add: Add_def Let_def expiry_of_def depth_def)
  next
    case False
    with f' d' None e show ?thesis
      by (simp add: Add_def Let_def expiry_of_def depth_def del: find.simps takeWhile.simps)
  qed
next
  case (Some e')
  then have "key e' = k'"
    by (auto dest: find_Some_iff [THEN iffD1])
  with assms(1,2) takeWhile_removeElement_other [OF assms(1), of "lru c"] Some show ?thesis
    by (simp add: Add_def expiry_of_def depth_def find_removeElement_other)
qed

lemma ExportEvents_dedup_body_size_limit:
  "size_limit (recorder (ExportEvents_dedup_body a st t)) = size_limit (recorder st)"
proof -
  obtain r res where g: "Get (recorder st) (generateKey (ev t)) (now_get t) = (r, res)"
    by (cases "Get (recorder st) (generateKey (ev t)) (now_get t)")
  with Get_size_limit [of "recorder st" "generateKey (ev t)" "now_get t"]
  have "size_limit r = size_limit (recorder st)" by simp
  then show ?thesis
    by (cases res) (simp_all add: ExportEvents_dedup_body_recorder g Add_size_limit)
qed

lemma ExportEvents_dedup_foldl_size_limit:
  "size_limit (recorder (foldl (ExportEvents_dedup_body a) st ts)) = size_limit (recorder st)"
  by (induction ts arbitrary: st) (simp_all add: ExportEvents_dedup_body_size_limit)

text \<open>One step keeps a live entry, one place deeper at most.\<close>

lemma ExportEvents_dedup_body_keeps:
  assumes x: "expiry_of (recorder st) k = Some x"
    and d: "int (depth (recorder st) k) + 1 < size_limit (recorder st)"
    and w: "generateKey (ev t) = k \<longrightarrow> now_get t < x"
  shows "expiry_of (recorder (ExportEvents_dedup_body a st t)) k = Some x
    \<and> depth (recorder (ExportEvents_dedup_body a st t)) k \<le> depth (recorder st) k + 1"
proof (cases "isEventLevelDangerous a (Type (ev t)) \<and> \<not> isIgnoreAlert a (ev t)")
  case False
  then have "recorder (ExportEvents_dedup_body a st t) = recorder st"
    by (simp only: ExportEvents_dedup_body_recorder if_False)
  with x show ?thesis
    by simp
next
  case True
  let ?k' = "generateKey (ev t)"
  obtain r res where g: "Get (recorder st) ?k' (now_get t) = (r, res)"
    by (cases "Get (recorder st) ?k' (now_get t)")
  show ?thesis
  proof (cases "?k' = k")
    case same: True
    with w have "now_get t < x" by simp
    from Get_hit [OF x this] same g obtain ok where "res = Some ok"
      and "expiry_of r k = Some x" and "depth r k = 0"
      by (cases res) auto
    with True g show ?thesis
      by (simp add: ExportEvents_dedup_body_recorder)
  next
    case other: False
    from Get_other [OF other, of "recorder st" "now_get t"] g x
    have rx: "expiry_of r k = Some x"
      and rd: "depth r k \<le> depth (recorder st) k + (if res = None then 0 else 1)"
      by simp_all
    show ?thesis
    proof (cases res)
      case (Some ok)
      with True g rx rd show ?thesis
        by (simp add: ExportEvents_dedup_body_recorder)
    next
      case None
      with rd have rd': "depth r k \<le> depth (recorder st) k" by simp
      from Get_size_limit [of "recorder st" ?k' "now_get t"] g
      have "size_limit r = size_limit (recorder st)" by simp
      with d rd' have "int (depth r k) + 1 < size_limit r" by simp
      from Add_other [OF other rx this, of 1 "now_add t + Second * 300"] rd' True g None
      show ?thesis
        by (simp add: ExportEvents_dedup_body_recorder)
    qed
  qed
qed

text \<open>
  A live entry survives a run of fewer events than the recorder has places, when the
  events that share its key are looked up before its expiry.
\<close>

lemma ExportEvents_dedup_foldl_keeps:
  assumes "expiry_of (recorder st) k = Some x"
    and "int (depth (recorder st) k) + int (length ts) < size_limit (recorder st)"
    and "\<forall>t \<in> set ts. generateKey (ev t) = k \<longrightarrow> now_get t < x"
  shows "expiry_of (recorder (foldl (ExportEvents_dedup_body a) st ts)) k = Some x"
  using assms
proof (induction ts arbitrary: st)
  case Nil
  then show ?case by simp
next
  case (Cons t ts)
  from Cons.prems have d: "int (depth (recorder st) k) + 1 < size_limit (recorder st)"
    and w: "generateKey (ev t) = k \<longrightarrow> now_get t < x"
    by simp_all
  from ExportEvents_dedup_body_keeps [OF Cons.prems(1) d w, of a]
  have x': "expiry_of (recorder (ExportEvents_dedup_body a st t)) k = Some x"
    and d': "depth (recorder (ExportEvents_dedup_body a st t)) k \<le> depth (recorder st) k + 1"
    by simp_all
  from d' Cons.prems(2)
  have "int (depth (recorder (ExportEvents_dedup_body a st t)) k) + int (length ts)
      < size_limit (recorder (ExportEvents_dedup_body a st t))"
    by (simp add: ExportEvents_dedup_body_size_limit)
  from Cons.IH [OF x' this] Cons.prems(3) show ?case
    by simp
qed

text \<open>Fingerprints that the recorder does not hold.\<close>

lemma Get_absent:
  assumes "k \<notin> key ` set (lru c)"
  shows "Get c k now = (c, None)"
proof -
  from assms have "find (\<lambda>e. key e = k) (lru c) = None"
    by (auto simp: find_None_iff)
  then show ?thesis by (simp add: Get_def)
qed

lemma Add_absent:
  assumes "k \<notin> key ` set (lru c)" and "int (length (lru c)) \<le> size_limit c"
  shows "Add c k v x =
     c\<lparr>lru := take (nat (size_limit c)) (\<lparr>key = k, val = v, expiresAt = x\<rparr> # lru c)\<rparr>"
proof -
  let ?l = "\<lparr>key = k, val = v, expiresAt = x\<rparr> # lru c"
  from assms(1) have f: "find (\<lambda>e. key e = k) (lru c) = None"
    by (auto simp: find_None_iff)
  show ?thesis
  proof (cases "int (length ?l) > size_limit c")
    case True
    with assms(2) have "nat (size_limit c) = length ?l - 1" by simp
    then have "butlast ?l = take (nat (size_limit c)) ?l"
      by (simp only: butlast_conv_take)
    moreover from f True have "Add c k v x = c\<lparr>lru := butlast ?l\<rparr>"
      by (simp add: Add_def Let_def del: butlast.simps)
    ultimately show ?thesis by simp
  next
    case False
    then have "take (nat (size_limit c)) ?l = ?l" by simp
    moreover from f False have "Add c k v x = c\<lparr>lru := ?l\<rparr>"
      by (simp add: Add_def Let_def)
    ultimately show ?thesis by simp
  qed
qed

lemma take_append_take: "take n (xs @ take n ys) = take n (xs @ ys)"
  by (simp add: min_def)

text \<open>
  A run of events that pass the filters, with pairwise different fingerprints that the
  recorder does not hold, pushes one entry each, and the recorder keeps the most recent
  ones up to its size.
\<close>

lemma ExportEvents_dedup_foldl_fresh:
  assumes "\<forall>t \<in> set ts. isEventLevelDangerous a (Type (ev t)) \<and> \<not> isIgnoreAlert a (ev t)"
    and "distinct (map (\<lambda>t. generateKey (ev t)) ts)"
    and "\<forall>t \<in> set ts. generateKey (ev t) \<notin> key ` set (lru (recorder st))"
    and "int (length (lru (recorder st))) \<le> size_limit (recorder st)"
  shows "lru (recorder (foldl (ExportEvents_dedup_body a) st ts)) =
     take (nat (size_limit (recorder st))) (rev (map fresh_entry ts) @ lru (recorder st))"
  using assms
proof (induction ts arbitrary: st)
  case Nil
  then show ?case by simp
next
  case (Cons t ts)
  let ?k = "generateKey (ev t)"
  let ?n = "nat (size_limit (recorder st))"
  let ?st = "ExportEvents_dedup_body a st t"
  from Cons.prems(3) have k: "?k \<notin> key ` set (lru (recorder st))" by simp
  from Cons.prems(1) have p: "isEventLevelDangerous a (Type (ev t)) \<and> \<not> isIgnoreAlert a (ev t)"
    by simp
  have r: "recorder ?st = (recorder st)\<lparr>lru := take ?n (fresh_entry t # lru (recorder st))\<rparr>"
    using p Get_absent [OF k] Add_absent [OF k Cons.prems(4)]
    by (simp add: ExportEvents_dedup_body_recorder fresh_entry_def)
  have 1: "\<forall>t \<in> set ts. isEventLevelDangerous a (Type (ev t)) \<and> \<not> isIgnoreAlert a (ev t)"
    using Cons.prems(1) by simp
  have 2: "distinct (map (\<lambda>t. generateKey (ev t)) ts)"
    using Cons.prems(2) by simp
  have 3: "\<forall>t \<in> set ts. generateKey (ev t) \<notin> key ` set (lru (recorder ?st))"
  proof
    fix t' assume t': "t' \<in> set ts"
    with Cons.prems(2) have "generateKey (ev t') \<noteq> ?k" by (auto simp: image_iff)
    moreover from t' Cons.prems(3) have "generateKey (ev t') \<notin> key ` set (lru (recorder st))"
      by simp
    moreover have "set (lru (recorder ?st)) \<subseteq> insert (fresh_entry t) (set (lru (recorder st)))"
      using set_take_subset [of ?n "fresh_entry t # lru (recorder st)"] by (simp add: r)
    ultimately show "generateKey (ev t') \<notin> key ` set (lru (recorder ?st))"
      by (auto simp: fresh_entry_def)
  qed
  have 4: "int (length (lru (recorder ?st))) \<le> size_limit (recorder ?st)"
    using Cons.prems(4) by (simp add: r)
  from Cons.IH [OF 1 2 3 4] show ?case
    by (simp add: r take_append_take)
qed

section \<open>Live and expired fingerprints\<close>

text \<open>What it means for the loop body to append an alert.\<close>

lemma ExportEvents_dedup_body_forwards:
  assumes "alerts (ExportEvents_dedup_body a st t) = alerts st @ [alert]"
  shows "isEventLevelDangerous a (Type (ev t))" and "\<not> isIgnoreAlert a (ev t)"
    and "snd (Get (recorder st) (generateKey (ev t)) (now_get t)) = None"
    and "createAlertFromEvent (Cluster a) (ev t) = Inr alert"
proof -
  let ?c = "isEventLevelDangerous a (Type (ev t)) \<and> \<not> isIgnoreAlert a (ev t)
         \<and> snd (Get (recorder st) (generateKey (ev t)) (now_get t)) = None"
  have c: ?c
  proof (rule ccontr)
    assume "\<not> ?c"
    then have "alerts (ExportEvents_dedup_body a st t) = alerts st"
      by (simp only: ExportEvents_dedup_body_alerts_eq if_False append_Nil2)
    with assms show False by simp
  qed
  then show "isEventLevelDangerous a (Type (ev t))" and "\<not> isIgnoreAlert a (ev t)"
    and "snd (Get (recorder st) (generateKey (ev t)) (now_get t)) = None"
    by simp_all
  show "createAlertFromEvent (Cluster a) (ev t) = Inr alert"
  proof (cases "createAlertFromEvent (Cluster a) (ev t)")
    case (Inl e)
    have "alerts (ExportEvents_dedup_body a st t) = alerts st"
      by (simp add: ExportEvents_dedup_body_alerts_eq Inl)
    with assms show ?thesis by simp
  next
    case (Inr al)
    with c have "alerts (ExportEvents_dedup_body a st t) = alerts st @ [al]"
      by (simp add: ExportEvents_dedup_body_alerts_eq)
    with assms Inr show ?thesis by simp
  qed
qed

text \<open>
  An event that passes the two filters and misses the recorder leaves its fingerprint
  at the front, with the expiry of 300 seconds after the reading of the clock.
\<close>

lemma ExportEvents_dedup_body_records:
  assumes "isEventLevelDangerous a (Type (ev t))" and "\<not> isIgnoreAlert a (ev t)"
    and "snd (Get (recorder st) (generateKey (ev t)) (now_get t)) = None"
    and "0 < size_limit (recorder st)"
  shows "expiry_of (recorder (ExportEvents_dedup_body a st t)) (generateKey (ev t))
           = Some (now_add t + Second * 300)
       \<and> depth (recorder (ExportEvents_dedup_body a st t)) (generateKey (ev t)) = 0"
proof -
  obtain r res where g: "Get (recorder st) (generateKey (ev t)) (now_get t) = (r, res)"
    by (cases "Get (recorder st) (generateKey (ev t)) (now_get t)")
  with assms(3) have res: "res = None" by simp
  from Get_size_limit [of "recorder st" "generateKey (ev t)" "now_get t"] g assms(4)
  have "0 < size_limit r" by simp
  from Add_same [OF this] assms(1,2) g res show ?thesis
    by (simp add: ExportEvents_dedup_body_recorder)
qed

text \<open>The same after fewer later events than the recorder has places.\<close>

lemma live_after_run:
  assumes "isEventLevelDangerous a (Type (ev t1))" and "\<not> isIgnoreAlert a (ev t1)"
    and "snd (Get (recorder st) (generateKey (ev t1)) (now_get t1)) = None"
    and "int (length mid) < size_limit (recorder st)"
    and "\<forall>t \<in> set mid. generateKey (ev t) = generateKey (ev t1) \<longrightarrow>
           now_get t < now_add t1 + Second * 300"
    and "recorder st2 =
           recorder (foldl (ExportEvents_dedup_body a) (ExportEvents_dedup_body a st t1) mid)"
  shows "expiry_of (recorder st2) (generateKey (ev t1)) = Some (now_add t1 + Second * 300)"
proof -
  from assms(4) have "0 < size_limit (recorder st)" by simp
  from ExportEvents_dedup_body_records [OF assms(1-3) this]
  have x: "expiry_of (recorder (ExportEvents_dedup_body a st t1)) (generateKey (ev t1))
           = Some (now_add t1 + Second * 300)"
    and d: "depth (recorder (ExportEvents_dedup_body a st t1)) (generateKey (ev t1)) = 0"
    by simp_all
  from d assms(4)
  have "int (depth (recorder (ExportEvents_dedup_body a st t1)) (generateKey (ev t1)))
      + int (length mid) < size_limit (recorder (ExportEvents_dedup_body a st t1))"
    by (simp add: ExportEvents_dedup_body_size_limit)
  from ExportEvents_dedup_foldl_keeps [OF x this assms(5)] assms(6) show ?thesis
    by simp
qed

text \<open>An event whose fingerprint is live is skipped as not the first.\<close>

lemma ExportEvents_dedup_body_suppressed:
  assumes "expiry_of (recorder st) (generateKey (ev t)) = Some x" and "now_get t < x"
  shows "alerts (ExportEvents_dedup_body a st t) = alerts st"
    and "isEventLevelDangerous a (Type (ev t)) \<Longrightarrow> \<not> isIgnoreAlert a (ev t) \<Longrightarrow>
         logged (ExportEvents_dedup_body a st t) = logged st @ [SkipNotFirst (ev t)]"
proof -
  from Get_hit [OF assms]
  have h: "snd (Get (recorder st) (generateKey (ev t)) (now_get t)) \<noteq> None"
    by simp
  then have "\<not> (isEventLevelDangerous a (Type (ev t)) \<and> \<not> isIgnoreAlert a (ev t)
         \<and> snd (Get (recorder st) (generateKey (ev t)) (now_get t)) = None)"
    by simp
  then show "alerts (ExportEvents_dedup_body a st t) = alerts st"
    by (simp only: ExportEvents_dedup_body_alerts_eq if_False append_Nil2)
  show "logged (ExportEvents_dedup_body a st t) = logged st @ [SkipNotFirst (ev t)]"
    if "isEventLevelDangerous a (Type (ev t))" "\<not> isIgnoreAlert a (ev t)"
    using that h by (simp add: ExportEvents_dedup_body_logged)
qed

text \<open>An event whose fingerprint has expired is processed as a first one.\<close>

lemma ExportEvents_dedup_body_expired:
  assumes "expiry_of (recorder st) (generateKey (ev t)) = Some x" and "x \<le> now_get t"
    and "isEventLevelDangerous a (Type (ev t))" and "\<not> isIgnoreAlert a (ev t)"
    and "createAlertFromEvent (Cluster a) (ev t) = Inr alert"
  shows "alerts (ExportEvents_dedup_body a st t) = alerts st @ [alert]"
proof -
  from assms(1,2) have "snd (Get (recorder st) (generateKey (ev t)) (now_get t)) = None"
    by (simp add: Get_miss_iff)
  with assms(3-5) show ?thesis
    by (simp add: ExportEvents_dedup_body_alerts_eq)
qed

lemma identity_eq:
  assumes "identity e' = identity e"
  shows "generateKey e' = generateKey e" and "Type e' = Type e" and "Reason e' = Reason e"
    and "createAlertFromEvent cluster e' = createAlertFromEvent cluster e"
proof -
  from assms have f: "Type e' = Type e" "Namespace e' = Namespace e" "Name e' = Name e"
    "Message e' = Message e" "Reason e' = Reason e"
    by (simp_all add: identity_def)
  then show "generateKey e' = generateKey e" and "Type e' = Type e" and "Reason e' = Reason e"
    by (simp_all add: generateKey_def)
  from f show "createAlertFromEvent cluster e' = createAlertFromEvent cluster e"
    by (simp add: createAlertFromEvent_def Let_def cong: if_cong)
qed

section \<open>The concrete events and the eviction of a fingerprint\<close>

lemma oom_event_passes:
  "isEventLevelDangerous demo_sink (Type oom_event)" "\<not> isIgnoreAlert demo_sink oom_event"
  "createAlertFromEvent (Cluster demo_sink) oom_event = Inr oom_alert"
  "generateKey oom_event = ''Warningkube-systempod-aOOMKilledEvicted''"
  by (simp_all add: isEventLevelDangerous_iff isIgnoreAlert_iff ignoreAlerts_def demo_sink_def
      oom_event_def getLevel_simps createAlertFromEvent_def label_defs ToUpper_kube_system
      oom_alert_def generateKey_def)

lemma silent_event_passes:
  "isEventLevelDangerous demo_sink (Type silent_event)" "\<not> isIgnoreAlert demo_sink silent_event"
  "createAlertFromEvent (Cluster demo_sink) silent_event = Inl NotVaildAlertName"
  "generateKey silent_event = ''Warningkube-systempod-aEvicted''"
  by (simp_all add: isEventLevelDangerous_iff isIgnoreAlert_iff ignoreAlerts_def demo_sink_def
      silent_event_def getLevel_simps createAlertFromEvent_def generateKey_def)

lemma loud_event_passes:
  "isEventLevelDangerous demo_sink (Type loud_event)" "\<not> isIgnoreAlert demo_sink loud_event"
  "createAlertFromEvent (Cluster demo_sink) loud_event = Inr loud_alert"
  "generateKey loud_event = ''Warningkube-systempod-aEvicted''"
  by (simp_all add: isEventLevelDangerous_iff isIgnoreAlert_iff ignoreAlerts_def demo_sink_def
      loud_event_def getLevel_simps createAlertFromEvent_def label_defs ToUpper_kube_system
      loud_alert_def generateKey_def)

lemma at_simps: "ev (at e n) = e" "now_get (at e n) = n" "now_add (at e n) = n"
  by (simp_all add: at_def)

lemma filler_passes:
  "isEventLevelDangerous demo_sink (Type (ev (filler n)))"
  "\<not> isIgnoreAlert demo_sink (ev (filler n))"
  by (simp_all add: filler_def at_simps isEventLevelDangerous_iff isIgnoreAlert_iff
      ignoreAlerts_def demo_sink_def getLevel_simps)

lemma filler_key:
  "generateKey (ev (filler n)) = ''Warningfill'' @ replicate n CHR ''x'' @ ''fillernone''"
  by (simp add: filler_def at_simps generateKey_def)

lemma filler_key_inj: "generateKey (ev (filler m)) = generateKey (ev (filler n)) \<Longrightarrow> m = n"
proof -
  assume "generateKey (ev (filler m)) = generateKey (ev (filler n))"
  then have "length (generateKey (ev (filler m))) = length (generateKey (ev (filler n)))"
    by simp
  then show "m = n" by (simp add: filler_key)
qed

lemma filler_key_other:
  "generateKey (ev (filler n)) \<noteq> ''Warningkube-systempod-aOOMKilledEvicted''"
  "generateKey (ev (filler n)) \<noteq> ''Warningkube-systempod-aEvicted''"
  by (simp_all add: filler_key)

lemma fillers_facts:
  "length fillers = 500"
  "\<forall>t \<in> set fillers. isEventLevelDangerous demo_sink (Type (ev t))
      \<and> \<not> isIgnoreAlert demo_sink (ev t)"
  "distinct (map (\<lambda>t. generateKey (ev t)) fillers)"
  "\<forall>t \<in> set fillers. generateKey (ev t) \<noteq> ''Warningkube-systempod-aOOMKilledEvicted''
      \<and> generateKey (ev t) \<noteq> ''Warningkube-systempod-aEvicted''"
proof -
  show "length fillers = 500" by (simp add: fillers_def)
  show "\<forall>t \<in> set fillers. isEventLevelDangerous demo_sink (Type (ev t))
      \<and> \<not> isIgnoreAlert demo_sink (ev t)"
    by (auto simp: fillers_def filler_passes)
  have "inj_on (\<lambda>n. generateKey (ev (filler n))) (set [0..<500])"
    by (rule inj_onI) (rule filler_key_inj)
  then show "distinct (map (\<lambda>t. generateKey (ev t)) fillers)"
    by (simp add: fillers_def distinct_map comp_def)
  show "\<forall>t \<in> set fillers. generateKey (ev t) \<noteq> ''Warningkube-systempod-aOOMKilledEvicted''
      \<and> generateKey (ev t) \<noteq> ''Warningkube-systempod-aEvicted''"
    by (auto simp: fillers_def filler_key_other)
qed

text \<open>
  After an event has left its fingerprint \<open>k\<close> first in the empty recorder, the 500
  fillers push it out.
\<close>

lemma fillers_evict:
  assumes "recorder st = recorder_init\<lparr>lru := [e]\<rparr>"
    and "key e = ''Warningkube-systempod-aOOMKilledEvicted''
       \<or> key e = ''Warningkube-systempod-aEvicted''"
  shows "lru (recorder (foldl (ExportEvents_dedup_body demo_sink) st fillers))
           = rev (map fresh_entry fillers)"
    and "size_limit (recorder (foldl (ExportEvents_dedup_body demo_sink) st fillers)) = 500"
proof -
  have 3: "\<forall>t \<in> set fillers. generateKey (ev t) \<notin> key ` set (lru (recorder st))"
    using fillers_facts(4) assms by auto
  have 4: "int (length (lru (recorder st))) \<le> size_limit (recorder st)"
    using assms(1) by (simp add: recorder_init_def MAX_RECORDER_def)
  from ExportEvents_dedup_foldl_fresh [OF fillers_facts(2,3) 3 4]
  show "lru (recorder (foldl (ExportEvents_dedup_body demo_sink) st fillers))
           = rev (map fresh_entry fillers)"
    using assms(1) fillers_facts(1) by (simp add: recorder_init_def MAX_RECORDER_def)
  show "size_limit (recorder (foldl (ExportEvents_dedup_body demo_sink) st fillers)) = 500"
    using assms(1)
    by (simp add: ExportEvents_dedup_foldl_size_limit recorder_init_def MAX_RECORDER_def)
qed

lemma fillers_keys:
  "k = ''Warningkube-systempod-aOOMKilledEvicted'' \<or> k = ''Warningkube-systempod-aEvicted'' \<Longrightarrow>
     k \<notin> key ` set (rev (map fresh_entry fillers))"
  using fillers_facts(4) by (auto simp: fresh_entry_def)

lemma ExportEvents_dedup_single:
  "ExportEvents_dedup a r [t] =
     (recorder (ExportEvents_dedup_body a \<lparr>recorder = r, alerts = [], logged = []\<rparr> t),
      (if alerts (ExportEvents_dedup_body a \<lparr>recorder = r, alerts = [], logged = []\<rparr> t) = []
       then None
       else Some (Send a (alerts (ExportEvents_dedup_body a
                                    \<lparr>recorder = r, alerts = [], logged = []\<rparr> t)))),
      logged (ExportEvents_dedup_body a \<lparr>recorder = r, alerts = [], logged = []\<rparr> t))"
  by (simp add: ExportEvents_dedup_def ExportEvents_dedup_loop_def Let_def)

lemma first_export:
  assumes "isEventLevelDangerous demo_sink (Type e)" and "\<not> isIgnoreAlert demo_sink e"
  shows "recorder (ExportEvents_dedup_body demo_sink run0 (at e n)) =
      recorder_init\<lparr>lru := [\<lparr>key = generateKey e, val = 1, expiresAt = n + Second * 300\<rparr>]\<rparr>"
    and "alerts (ExportEvents_dedup_body demo_sink run0 (at e n)) =
      (case createAlertFromEvent (Cluster demo_sink) e of Inl err \<Rightarrow> [] | Inr alert \<Rightarrow> [alert])"
    and "logged (ExportEvents_dedup_body demo_sink run0 (at e n)) =
      (case createAlertFromEvent (Cluster demo_sink) e of
         Inl err \<Rightarrow> [FailedCreate e] | Inr alert \<Rightarrow> [])"
  using assms
  by (simp_all add: ExportEvents_dedup_body_recorder ExportEvents_dedup_body_alerts_eq
      ExportEvents_dedup_body_logged run0_def at_simps recorder_init_fresh
      cong: sum.case_cong)

text \<open>The export of one event whose fingerprint the recorder does not hold.\<close>

lemma absent_export:
  assumes "isEventLevelDangerous a (Type e)" and "\<not> isIgnoreAlert a e"
    and "generateKey e \<notin> key ` set (lru r)"
    and "createAlertFromEvent (Cluster a) e = Inr alert"
  shows "forwarded (fst (snd (ExportEvents_dedup a r [at e n]))) = [alert]"
  using assms Get_absent [OF assms(3)]
  by (simp add: ExportEvents_dedup_forwarded ExportEvents_dedup_loop_def
      ExportEvents_dedup_body_alerts_eq at_simps)

section \<open>Duplicates within the window\<close>

text \<open>
  Claim C1, as amended. In the deduplicating variant, let an event be forwarded, its
  fingerprint recorded with the expiry of 300 seconds after the clock reading \<open>now_add\<close>.
  Let fewer events than the recorder has places (500) be processed next, those that share
  the fingerprint being looked up before that expiry. Then an event with the same type,
  namespace, name, message and reason that is looked up before the expiry adds no alert
  and is logged as not the first alert; looked up at the expiry or later, it is forwarded
  again, with the same alert.
\<close>

theorem dedup_window:
  assumes first: "alerts (ExportEvents_dedup_body a st t1) = alerts st @ [alert]"
    and same: "identity (ev t2) = identity (ev t1)"
    and few: "int (length mid) < size_limit (recorder st)"
    and mid: "\<forall>t \<in> set mid. generateKey (ev t) = generateKey (ev t1) \<longrightarrow>
                now_get t < now_add t1 + Second * 300"
    and later: "recorder st2 =
       recorder (foldl (ExportEvents_dedup_body a) (ExportEvents_dedup_body a st t1) mid)"
  shows "(now_get t2 < now_add t1 + Second * 300 \<longrightarrow>
            alerts (ExportEvents_dedup_body a st2 t2) = alerts st2
          \<and> logged (ExportEvents_dedup_body a st2 t2) = logged st2 @ [SkipNotFirst (ev t2)])
       \<and> (now_add t1 + Second * 300 \<le> now_get t2 \<longrightarrow>
            alerts (ExportEvents_dedup_body a st2 t2) = alerts st2 @ [alert])"
proof -
  note f = ExportEvents_dedup_body_forwards [OF first]
  note i = identity_eq [OF same]
  from live_after_run [OF f(1-3) few mid later] i(1)
  have x: "expiry_of (recorder st2) (generateKey (ev t2)) = Some (now_add t1 + Second * 300)"
    by simp
  have p: "isEventLevelDangerous a (Type (ev t2))" "\<not> isIgnoreAlert a (ev t2)"
    using f(1,2) i(2,3) by (simp_all add: isIgnoreAlert_iff)
  have c: "createAlertFromEvent (Cluster a) (ev t2) = Inr alert"
    using f(4) i(4) by simp
  from ExportEvents_dedup_body_suppressed [OF x] ExportEvents_dedup_body_expired [OF x _ p c] p
  show ?thesis by blast
qed

theorem dedup_window_witness:
  "alerts (ExportEvents_dedup_body demo_sink run_oom (at oom_event (Second * 299))) = alerts run_oom
   \<and> logged (ExportEvents_dedup_body demo_sink run_oom (at oom_event (Second * 299)))
       = logged run_oom @ [SkipNotFirst oom_event]
   \<and> alerts (ExportEvents_dedup_body demo_sink run_oom (at oom_event (Second * 300)))
       = alerts run_oom @ [oom_alert]"
proof -
  have first: "alerts (ExportEvents_dedup_body demo_sink run0 (at oom_event 0))
      = alerts run0 @ [oom_alert]"
    using first_export(2) [OF oom_event_passes(1,2), of 0]
    by (simp add: oom_event_passes(3) run0_def)
  have same: "identity (ev (at oom_event n)) = identity (ev (at oom_event 0))" for n
    by (simp add: at_simps)
  have few: "int (length [at oom_event Second]) < size_limit (recorder run0)"
    by (simp add: run0_def recorder_init_def MAX_RECORDER_def)
  have mid: "\<forall>t \<in> set [at oom_event Second].
      generateKey (ev t) = generateKey (ev (at oom_event 0)) \<longrightarrow>
        now_get t < now_add (at oom_event 0) + Second * 300"
    by (simp add: at_simps Second_def)
  have later: "recorder run_oom = recorder (foldl (ExportEvents_dedup_body demo_sink)
      (ExportEvents_dedup_body demo_sink run0 (at oom_event 0)) [at oom_event Second])"
    by (simp only: run_oom_def)
  from dedup_window [OF first same few mid later, of "Second * 299"]
    dedup_window [OF first same few mid later, of "Second * 300"]
  show ?thesis
    by (simp add: at_simps Second_def)
qed

text \<open>
  Claim C1 as stated fails. The sink of \<^verbatim>\<open>alertmanager.go\<close> has no recorder: it sends
  the alert of an event twice when the batch holds the event twice. The deduplicating
  variant forwards an event at instant 0, then processes 500 events with other
  fingerprints, which push the first fingerprint out of the recorder, and forwards the
  same event again one second later.
\<close>

theorem dedup_window_counterexample:
  "forwarded (fst (ExportEvents demo_sink [oom_event, oom_event])) = [oom_alert, oom_alert]
   \<and> forwarded (fst (snd (ExportEvents_dedup demo_sink recorder_init [at oom_event 0])))
       = [oom_alert]
   \<and> forwarded (fst (snd (ExportEvents_dedup demo_sink
        (fst (ExportEvents_dedup demo_sink
           (fst (ExportEvents_dedup demo_sink recorder_init [at oom_event 0])) fillers))
        [at oom_event Second]))) = [oom_alert]"
proof -
  have 1: "forwarded (fst (ExportEvents demo_sink [oom_event, oom_event])) = [oom_alert, oom_alert]"
    by (simp add: ExportEvents_forwarded ExportEvents_body_def oom_event_passes)
  let ?r1 = "fst (ExportEvents_dedup demo_sink recorder_init [at oom_event 0])"
  have r1: "?r1 = recorder_init\<lparr>lru :=
      [\<lparr>key = generateKey oom_event, val = 1, expiresAt = 0 + Second * 300\<rparr>]\<rparr>"
    using first_export(1) [OF oom_event_passes(1,2), of 0]
    by (simp only: ExportEvents_dedup_single fst_conv run0_def)
  have 2: "forwarded (fst (snd (ExportEvents_dedup demo_sink recorder_init [at oom_event 0])))
       = [oom_alert]"
    using first_export(2) [OF oom_event_passes(1,2), of 0]
    by (simp add: ExportEvents_dedup_forwarded ExportEvents_dedup_loop_def run0_def
        oom_event_passes)
  let ?r2 = "fst (ExportEvents_dedup demo_sink ?r1 fillers)"
  have "lru ?r2 = rev (map fresh_entry fillers)"
    using fillers_evict(1) [of "\<lparr>recorder = ?r1, alerts = [], logged = []\<rparr>"] r1
    by (simp add: ExportEvents_dedup_def ExportEvents_dedup_loop_def Let_def oom_event_passes)
  with fillers_keys [of "generateKey oom_event"]
  have "generateKey oom_event \<notin> key ` set (lru ?r2)"
    by (simp add: oom_event_passes)
  from absent_export [OF oom_event_passes(1,2) this oom_event_passes(3)]
  have 3: "forwarded (fst (snd (ExportEvents_dedup demo_sink ?r2 [at oom_event Second])))
      = [oom_alert]" .
  from 1 2 3 show ?thesis by blast
qed

section \<open>The fingerprint of an event whose alert cannot be built\<close>

text \<open>
  Claim C10, as amended. In the deduplicating variant an event that passes the two filters
  and whose fingerprint the recorder does not hold unexpired is recorded with the expiry
  of 300 seconds after the clock reading, whatever the construction of its alert gives;
  with an empty message no alert is added and the failure is logged. When fewer events
  than the recorder has places (500) are processed next, those that share the
  fingerprint being looked up before the expiry, every event that shares the fingerprint
  and is looked up before the expiry adds no alert, and is logged as not the first alert
  when it passes the two filters.
\<close>

theorem fingerprint_recorded_before_build:
  assumes pass: "isEventLevelDangerous a (Type (ev t1))" "\<not> isIgnoreAlert a (ev t1)"
    and miss: "snd (Get (recorder st) (generateKey (ev t1)) (now_get t1)) = None"
    and few: "int (length mid) < size_limit (recorder st)"
    and mid: "\<forall>t \<in> set mid. generateKey (ev t) = generateKey (ev t1) \<longrightarrow>
                now_get t < now_add t1 + Second * 300"
    and later: "recorder st2 =
       recorder (foldl (ExportEvents_dedup_body a) (ExportEvents_dedup_body a st t1) mid)"
    and shares: "generateKey (ev t2) = generateKey (ev t1)"
    and within: "now_get t2 < now_add t1 + Second * 300"
  shows "expiry_of (recorder (ExportEvents_dedup_body a st t1)) (generateKey (ev t1))
           = Some (now_add t1 + Second * 300)
    \<and> (Message (ev t1) = '''' \<longrightarrow>
          alerts (ExportEvents_dedup_body a st t1) = alerts st
        \<and> logged (ExportEvents_dedup_body a st t1) = logged st @ [FailedCreate (ev t1)])
    \<and> alerts (ExportEvents_dedup_body a st2 t2) = alerts st2
    \<and> (isEventLevelDangerous a (Type (ev t2)) \<and> \<not> isIgnoreAlert a (ev t2) \<longrightarrow>
          logged (ExportEvents_dedup_body a st2 t2) = logged st2 @ [SkipNotFirst (ev t2)])"
proof -
  from few have "0 < size_limit (recorder st)" by simp
  from ExportEvents_dedup_body_records [OF pass miss this]
  have 1: "expiry_of (recorder (ExportEvents_dedup_body a st t1)) (generateKey (ev t1))
           = Some (now_add t1 + Second * 300)"
    by simp
  have 2: "alerts (ExportEvents_dedup_body a st t1) = alerts st
        \<and> logged (ExportEvents_dedup_body a st t1) = logged st @ [FailedCreate (ev t1)]"
    if "Message (ev t1) = ''''"
    using pass miss createAlertFromEvent_empty [OF that, of "Cluster a"]
    by (simp add: ExportEvents_dedup_body_alerts_eq ExportEvents_dedup_body_logged)
  from live_after_run [OF pass miss few mid later] shares
  have x: "expiry_of (recorder st2) (generateKey (ev t2)) = Some (now_add t1 + Second * 300)"
    by simp
  from 1 2 ExportEvents_dedup_body_suppressed [OF x within] show ?thesis
    by blast
qed

theorem fingerprint_recorded_before_build_witness:
  "expiry_of (recorder (ExportEvents_dedup_body demo_sink run0 (at silent_event 0)))
       (generateKey silent_event) = Some (Second * 300)
   \<and> alerts (ExportEvents_dedup_body demo_sink run0 (at silent_event 0)) = []
   \<and> logged (ExportEvents_dedup_body demo_sink run0 (at silent_event 0))
       = [FailedCreate silent_event]
   \<and> alerts (ExportEvents_dedup_body demo_sink
         (ExportEvents_dedup_body demo_sink run0 (at silent_event 0)) (at loud_event Second)) = []
   \<and> logged (ExportEvents_dedup_body demo_sink
         (ExportEvents_dedup_body demo_sink run0 (at silent_event 0)) (at loud_event Second))
       = [FailedCreate silent_event, SkipNotFirst loud_event]"
proof -
  let ?t1 = "at silent_event 0" and ?t2 = "at loud_event Second"
  let ?st2 = "ExportEvents_dedup_body demo_sink run0 ?t1"
  have pass: "isEventLevelDangerous demo_sink (Type (ev ?t1))"
    "\<not> isIgnoreAlert demo_sink (ev ?t1)"
    by (simp_all add: at_simps silent_event_passes)
  have miss: "snd (Get (recorder run0) (generateKey (ev ?t1)) (now_get ?t1)) = None"
    by (simp add: run0_def recorder_init_fresh)
  have few: "int (length ([] :: tick list)) < size_limit (recorder run0)"
    by (simp add: run0_def recorder_init_def MAX_RECORDER_def)
  have mid: "\<forall>t \<in> set []. generateKey (ev t) = generateKey (ev ?t1) \<longrightarrow>
      now_get t < now_add ?t1 + Second * 300"
    by simp
  have later: "recorder ?st2 =
      recorder (foldl (ExportEvents_dedup_body demo_sink) (ExportEvents_dedup_body demo_sink run0 ?t1) [])"
    by simp
  have shares: "generateKey (ev ?t2) = generateKey (ev ?t1)"
    by (simp add: at_simps silent_event_passes loud_event_passes)
  have within: "now_get ?t2 < now_add ?t1 + Second * 300"
    by (simp add: at_simps Second_def)
  have m: "Message (ev ?t1) = ''''"
    by (simp add: at_simps silent_event_def)
  have p2: "isEventLevelDangerous demo_sink (Type (ev ?t2)) \<and> \<not> isIgnoreAlert demo_sink (ev ?t2)"
    by (simp add: at_simps loud_event_passes)
  have z: "alerts run0 = []" "logged run0 = []"
    by (simp_all add: run0_def)
  from fingerprint_recorded_before_build [OF pass miss few mid later shares within] m p2 z
  show ?thesis
    by (simp add: at_simps)
qed

text \<open>
  Claim C10 as stated fails. An event with an empty message records its fingerprint at
  instant 0 and no alert is sent; 500 events with other fingerprints push the fingerprint
  out of the recorder; one second after the first event, an event with the same
  fingerprint and a message is forwarded.
\<close>

theorem fingerprint_recorded_before_build_counterexample:
  "ExportEvents_dedup demo_sink recorder_init [at silent_event 0] =
     (recorder_init\<lparr>lru := [\<lparr>key = ''Warningkube-systempod-aEvicted'', val = 1,
                              expiresAt = Second * 300\<rparr>]\<rparr>,
      None, [FailedCreate silent_event])
   \<and> generateKey loud_event = generateKey silent_event
   \<and> forwarded (fst (snd (ExportEvents_dedup demo_sink
        (fst (ExportEvents_dedup demo_sink
           (fst (ExportEvents_dedup demo_sink recorder_init [at silent_event 0])) fillers))
        [at loud_event Second]))) = [loud_alert]"
proof -
  note f = first_export [OF silent_event_passes(1,2), of 0]
  have 1: "ExportEvents_dedup demo_sink recorder_init [at silent_event 0] =
     (recorder_init\<lparr>lru := [\<lparr>key = ''Warningkube-systempod-aEvicted'', val = 1,
                              expiresAt = Second * 300\<rparr>]\<rparr>,
      None, [FailedCreate silent_event])"
    using f by (simp add: ExportEvents_dedup_single silent_event_passes run0_def)
  let ?r1 = "fst (ExportEvents_dedup demo_sink recorder_init [at silent_event 0])"
  let ?r2 = "fst (ExportEvents_dedup demo_sink ?r1 fillers)"
  have r1: "?r1 = recorder_init\<lparr>lru :=
      [\<lparr>key = ''Warningkube-systempod-aEvicted'', val = 1, expiresAt = Second * 300\<rparr>]\<rparr>"
    by (simp only: 1 fst_conv)
  have "lru ?r2 = rev (map fresh_entry fillers)"
    using fillers_evict(1) [of "\<lparr>recorder = ?r1, alerts = [], logged = []\<rparr>"] r1
    by (simp add: ExportEvents_dedup_def ExportEvents_dedup_loop_def Let_def)
  with fillers_keys [of "generateKey loud_event"]
  have "generateKey loud_event \<notin> key ` set (lru ?r2)"
    by (simp add: loud_event_passes)
  from absent_export [OF loud_event_passes(1,2) this loud_event_passes(3)]
  have 3: "forwarded (fst (snd (ExportEvents_dedup demo_sink ?r2 [at loud_event Second])))
      = [loud_alert]" .
  from 1 3 show ?thesis
    by (simp add: loud_event_passes silent_event_passes)
qed

end
